theory Spec2Isabelle
  imports Main "HOL-Library.Word"
begin

section \<open>Machine model\<close>

text \<open>
  The file \<^verbatim>\<open>libraries/libldap/sasl.c\<close> is written for a platform on which
  \<^verbatim>\<open>long\<close>, \<^verbatim>\<open>ber_len_t\<close> (\<^verbatim>\<open>unsigned long\<close>) and
  \<^verbatim>\<open>ber_slen_t\<close> (\<^verbatim>\<open>long\<close>) are 32 bits wide: \<^verbatim>\<open>sb_sasl_pkt_length\<close>
  reads the four header bytes of a packet through a \<^verbatim>\<open>long *\<close>. A byte is an
  \<open>8 word\<close>, a memory block is a list of bytes, and the host's byte order is a
  parameter of everything that reads a \<^verbatim>\<open>long\<close> from memory.
\<close>

type_synonym byte = "8 word"

datatype byte_order = Little_Endian | Big_Endian

text \<open>\<^verbatim>\<open>*((long *)buf)\<close>: the four bytes at \<open>buf\<close>, read in the host's order.\<close>

definition load_long :: "byte_order \<Rightarrow> byte list \<Rightarrow> 32 word" where
  "load_long bo buf =
     (case bo of
        Little_Endian \<Rightarrow>
          word_of_nat (unat (buf ! 0) + 256 * (unat (buf ! 1)
                       + 256 * (unat (buf ! 2) + 256 * unat (buf ! 3))))
      | Big_Endian \<Rightarrow>
          word_of_nat (unat (buf ! 3) + 256 * (unat (buf ! 2)
                       + 256 * (unat (buf ! 1) + 256 * unat (buf ! 0)))))"

text \<open>The four bytes of a 32-bit number in the opposite order.\<close>

definition bswap32 :: "nat \<Rightarrow> nat" where
  "bswap32 n = n div 256 div 256 div 256 mod 256
               + 256 * (n div 256 div 256 mod 256
               + 256 * (n div 256 mod 256 + 256 * (n mod 256)))"

text \<open>\<^verbatim>\<open>ntohl\<close>: network (big-endian) order to host order.\<close>

definition ntohl :: "byte_order \<Rightarrow> 32 word \<Rightarrow> 32 word" where
  "ntohl bo w =
     (case bo of
        Big_Endian \<Rightarrow> w
      | Little_Endian \<Rightarrow> word_of_nat (bswap32 (unat w)))"

text \<open>
  The number that four bytes denote in network order, most significant byte first.
  It is the yardstick of the statements about the packet length.
\<close>

definition be32 :: "byte list \<Rightarrow> nat" where
  "be32 buf = unat (buf ! 3) + 256 * (unat (buf ! 2)
              + 256 * (unat (buf ! 1) + 256 * unat (buf ! 0)))"

section \<open>Result codes\<close>

text \<open>
  The numeric constants come from the headers the file includes (\<^verbatim>\<open>sasl.h\<close>,
  \<^verbatim>\<open>ldap.h\<close>, \<^verbatim>\<open>errno.h\<close>); they are integers in the code and integers here.
\<close>

definition SASL_CONTINUE :: int where "SASL_CONTINUE = 1"
definition SASL_OK :: int where "SASL_OK = 0"
definition SASL_FAIL :: int where "SASL_FAIL = - 1"
definition SASL_NOMEM :: int where "SASL_NOMEM = - 2"
definition SASL_NOMECH :: int where "SASL_NOMECH = - 4"
definition SASL_BADPARAM :: int where "SASL_BADPARAM = - 7"
definition SASL_BADAUTH :: int where "SASL_BADAUTH = - 13"
definition SASL_NOAUTHZ :: int where "SASL_NOAUTHZ = - 14"
definition SASL_TOOWEAK :: int where "SASL_TOOWEAK = - 15"
definition SASL_ENCRYPT :: int where "SASL_ENCRYPT = - 16"

definition LDAP_SUCCESS :: int where "LDAP_SUCCESS = 0"
definition LDAP_OPERATIONS_ERROR :: int where "LDAP_OPERATIONS_ERROR = 1"
definition LDAP_SASL_BIND_IN_PROGRESS :: int where "LDAP_SASL_BIND_IN_PROGRESS = 14"
definition LDAP_UNAVAILABLE :: int where "LDAP_UNAVAILABLE = 52"
definition LDAP_LOCAL_ERROR :: int where "LDAP_LOCAL_ERROR = 82"
definition LDAP_ENCODING_ERROR :: int where "LDAP_ENCODING_ERROR = 83"
definition LDAP_AUTH_UNKNOWN :: int where "LDAP_AUTH_UNKNOWN = 86"
definition LDAP_PARAM_ERROR :: int where "LDAP_PARAM_ERROR = 89"
definition LDAP_NO_MEMORY :: int where "LDAP_NO_MEMORY = 90"
definition LDAP_NOT_SUPPORTED :: int where "LDAP_NOT_SUPPORTED = 92"
definition LDAP_MORE_RESULTS_TO_RETURN :: int where "LDAP_MORE_RESULTS_TO_RETURN = 95"

definition LDAP_DECODING_ERROR :: int where "LDAP_DECODING_ERROR = 84"

definition LDAP_VERSION2 :: int where "LDAP_VERSION2 = 2"
definition LDAP_VERSION3 :: int where "LDAP_VERSION3 = 3"

definition LDAP_RES_BIND :: int where "LDAP_RES_BIND = 97"

definition EINTR :: int where "EINTR = 4"
definition EIO :: int where "EIO = 5"
definition ENOMEM :: int where "ENOMEM = 12"

text \<open>\<^verbatim>\<open>LDAP_API_ERROR(n)\<close> is \<^verbatim>\<open>LDAP_RANGE((n),0x51,0xff)\<close>.\<close>

definition LDAP_API_ERROR :: "int \<Rightarrow> bool" where
  "LDAP_API_ERROR n = (81 \<le> n \<and> n \<le> 255)"

section \<open>Mapping provider status codes\<close>

text \<open>
  \<^verbatim>\<open>sasl_err2ldap\<close>: the \<^verbatim>\<open>switch\<close>, case by case in the order of the source.
\<close>

definition sasl_err2ldap :: "int \<Rightarrow> int" where
  "sasl_err2ldap saslerr =
     (if saslerr = SASL_CONTINUE then LDAP_MORE_RESULTS_TO_RETURN
      else if saslerr = SASL_OK then LDAP_SUCCESS
      else if saslerr = SASL_FAIL then LDAP_LOCAL_ERROR
      else if saslerr = SASL_NOMEM then LDAP_NO_MEMORY
      else if saslerr = SASL_NOMECH then LDAP_AUTH_UNKNOWN
      else if saslerr = SASL_BADAUTH then LDAP_AUTH_UNKNOWN
      else if saslerr = SASL_NOAUTHZ then LDAP_PARAM_ERROR
      else if saslerr = SASL_TOOWEAK \<or> saslerr = SASL_ENCRYPT then LDAP_AUTH_UNKNOWN
      else LDAP_LOCAL_ERROR)"

text \<open>
  The condition of the \<^verbatim>\<open>assert\<close> that stands before the \<^verbatim>\<open>return\<close> of
  \<^verbatim>\<open>sasl_err2ldap\<close>, on the code about to be returned.
\<close>

definition sasl_err2ldap_asserted :: "int \<Rightarrow> bool" where
  "sasl_err2ldap_asserted saslerr =
     (sasl_err2ldap saslerr = LDAP_SUCCESS \<or> LDAP_API_ERROR (sasl_err2ldap saslerr))"

section \<open>Secure frame codec\<close>

definition MAX_BUFF_SIZE :: nat where "MAX_BUFF_SIZE = 65536"
definition MIN_BUFF_SIZE :: nat where "MIN_BUFF_SIZE = 4096"

text \<open>
  \<^verbatim>\<open>sb_sasl_pkt_length\<close>. The message it logs for an illegal length is not part of
  the model; the argument \<^verbatim>\<open>debuglevel\<close> serves that message only.
\<close>

definition sb_sasl_pkt_length :: "byte_order \<Rightarrow> byte list \<Rightarrow> 32 word" where
  "sb_sasl_pkt_length bo buf =
     (let tmp = load_long bo buf;
          sz = ntohl bo tmp;
          sz' = (if unat sz > MAX_BUFF_SIZE then 16 else sz)
      in sz' + 4)"

section \<open>Frame buffers\<close>

text \<open>
  \<^verbatim>\<open>Sockbuf_Buf\<close> is declared in \<^verbatim>\<open>lber.h\<close>; the file uses its four fields:
  the block \<^verbatim>\<open>buf_base\<close> and the three \<^verbatim>\<open>ber_len_t\<close> fields \<^verbatim>\<open>buf_ptr\<close>,
  \<^verbatim>\<open>buf_end\<close> and \<^verbatim>\<open>buf_size\<close>. The block is the list of the bytes it holds;
  the three numbers are natural numbers, and the conversions between
  \<^verbatim>\<open>ber_len_t\<close> and \<^verbatim>\<open>ber_slen_t\<close> are written out where the code converts.
\<close>

record Sockbuf_Buf =
  buf_base :: "byte list"
  buf_ptr :: nat
  buf_end :: nat
  buf_size :: nat

text \<open>
  A difference of two \<^verbatim>\<open>ber_len_t\<close> stored in a \<^verbatim>\<open>ber_slen_t\<close> (32 bits, two's
  complement), and a \<^verbatim>\<open>ber_slen_t\<close> stored in a \<^verbatim>\<open>ber_len_t\<close>.
\<close>

definition to_slen :: "int \<Rightarrow> int" where
  "to_slen i = (i + 2147483648) mod 4294967296 - 2147483648"

definition to_len :: "int \<Rightarrow> nat" where
  "to_len i = nat (i mod 4294967296)"

text \<open>
  Writing the bytes \<open>bs\<close> into a block at offset \<open>off\<close>, and \<^verbatim>\<open>memmove\<close> inside one
  block. Both describe the C only while the bytes written lie inside the block.
\<close>

definition store :: "byte list \<Rightarrow> nat \<Rightarrow> byte list \<Rightarrow> byte list" where
  "store mem off bs = take off mem @ bs @ drop (off + length bs) mem"

definition memmove :: "byte list \<Rightarrow> nat \<Rightarrow> nat \<Rightarrow> nat \<Rightarrow> byte list" where
  "memmove mem dst src n = store mem dst (take n (drop src mem))"

text \<open>
  Modelled from the spec: \<^verbatim>\<open>ber_pvt_sb_buf_init\<close> and \<^verbatim>\<open>ber_pvt_sb_buf_destroy\<close>
  belong to liblber and are not part of this file. The spec's \<open>reset(buffer)\<close>
  "releases backing storage, zeroes cursors".
\<close>

definition ber_pvt_sb_buf_init :: Sockbuf_Buf where
  "ber_pvt_sb_buf_init = \<lparr>buf_base = [], buf_ptr = 0, buf_end = 0, buf_size = 0\<rparr>"

definition ber_pvt_sb_buf_destroy :: "Sockbuf_Buf \<Rightarrow> Sockbuf_Buf" where
  "ber_pvt_sb_buf_destroy b = ber_pvt_sb_buf_init"

text \<open>
  Modelled from the spec: \<^verbatim>\<open>ber_pvt_sb_copy_out\<close> belongs to liblber and is not part
  of this file. The spec's \<open>copy_out(buffer, dest, max_len)\<close> "copies up to \<open>max_len\<close>
  bytes from \<open>[read_cursor, end)\<close> into \<open>dest\<close>, advances \<open>read_cursor\<close>; never blocks;
  returns 0 if empty". The result is the count, the bytes stored at \<open>dest\<close> and the
  buffer.
\<close>

definition ber_pvt_sb_copy_out :: "Sockbuf_Buf \<Rightarrow> nat \<Rightarrow> nat \<times> byte list \<times> Sockbuf_Buf" where
  "ber_pvt_sb_copy_out b len =
     (let n = min (buf_end b - buf_ptr b) len
      in (n, take n (drop (buf_ptr b) (buf_base b)), b\<lparr>buf_ptr := buf_ptr b + n\<rparr>))"

text \<open>
  The logical content of a buffer, the bytes \<open>[buf_ptr, buf_end)\<close> of its block.
\<close>

definition buf_content :: "Sockbuf_Buf \<Rightarrow> byte list" where
  "buf_content b = take (buf_end b - buf_ptr b) (drop (buf_ptr b) (buf_base b))"

text \<open>
  Modelled from the spec: \<^verbatim>\<open>ber_pvt_sb_grow_buffer\<close> belongs to liblber and is not
  part of this file. The spec's \<open>grow(buffer, min_capacity)\<close> "reallocates backing
  storage to at least \<open>min_capacity\<close>; fails (signals out-of-memory) without corrupting
  existing content if allocation fails". The functions of this file take the growth
  operation as a parameter (\<open>grow_buffer\<close> below); this instance, which allocates
  exactly the capacity asked for when the allocator \<open>alloc_ok\<close> grants it, serves the
  concrete runs.
\<close>

definition ber_pvt_sb_grow_buffer :: "bool \<Rightarrow> Sockbuf_Buf \<Rightarrow> nat \<Rightarrow> Sockbuf_Buf option" where
  "ber_pvt_sb_grow_buffer alloc_ok b minsize =
     (if minsize \<le> buf_size b then Some b
      else if alloc_ok then
        Some (b\<lparr>buf_base := buf_base b @ replicate (minsize - length (buf_base b)) 0,
                buf_size := minsize\<rparr>)
      else None)"

text \<open>\<^verbatim>\<open>sb_sasl_drop_packet\<close>, statement by statement.\<close>

definition sb_sasl_drop_packet :: "byte_order \<Rightarrow> Sockbuf_Buf \<Rightarrow> Sockbuf_Buf" where
  "sb_sasl_drop_packet bo b =
     (let len = to_slen (int (buf_ptr b) - int (buf_end b));
          base' = (if len > 0 then memmove (buf_base b) 0 (buf_end b) (nat len)
                   else buf_base b);
          end' = (if len \<ge> 4 then unat (sb_sasl_pkt_length bo base') else 0)
      in b\<lparr>buf_base := base', buf_end := end', buf_ptr := to_len len\<rparr>)"

section \<open>The streaming adapter\<close>

text \<open>
  The security provider and liblber's growth operation are parameters of the adapter.
  \<open>sasl_decode\<close> and \<open>sasl_encode\<close> take the provider's context and the input bytes and
  give the status code, the output bytes and the context afterwards.
\<close>

record 'c sasl_env =
  host_order :: byte_order
  grow_buffer :: "Sockbuf_Buf \<Rightarrow> nat \<Rightarrow> Sockbuf_Buf option"
  sasl_decode :: "'c \<Rightarrow> byte list \<Rightarrow> int \<times> byte list \<times> 'c"
  sasl_encode :: "'c \<Rightarrow> byte list \<Rightarrow> int \<times> byte list \<times> 'c"

record 'c sb_sasl_data =
  sasl_context :: 'c
  sec_buf_in :: Sockbuf_Buf
  buf_in :: Sockbuf_Buf
  buf_out :: Sockbuf_Buf

text \<open>
  \<^verbatim>\<open>sb_sasl_setup\<close>. \<open>malloc_ok\<close> says whether \<^verbatim>\<open>LBER_MALLOC\<close> succeeds. The result
  is the return code, the value stored in \<^verbatim>\<open>errno\<close> (if any) and the private data
  installed in the descriptor (if any).
\<close>

definition sb_sasl_setup ::
  "'c sasl_env \<Rightarrow> bool \<Rightarrow> 'c \<Rightarrow> int \<times> int option \<times> 'c sb_sasl_data option" where
  "sb_sasl_setup env malloc_ok arg =
     (if \<not> malloc_ok then (- 1, None, None)
      else
        (case grow_buffer env ber_pvt_sb_buf_init MIN_BUFF_SIZE of
           None \<Rightarrow> (- 1, Some ENOMEM, None)
         | Some b \<Rightarrow>
             (0, None,
              Some \<lparr>sasl_context = arg, sec_buf_in = b, buf_in = ber_pvt_sb_buf_init,
                    buf_out = ber_pvt_sb_buf_init\<rparr>)))"

subsection \<open>The layer below\<close>

text \<open>
  \<^verbatim>\<open>LBER_SBIOD_READ_NEXT\<close> calls the read operation of the next lower layer of the
  stream. That layer is a script of what it will answer: \<open>Rd_data bs\<close> are bytes it has
  ready (a call takes as many of them as it asked for at most, and an empty \<open>bs\<close> is the
  end of the stream, a call that returns 0); \<open>Rd_ret r e\<close> is a call that stores nothing,
  returns \<open>r\<close> and leaves \<open>e\<close> in \<^verbatim>\<open>errno\<close>. A call on the empty script never returns.
\<close>

datatype rd_event = Rd_data "byte list" | Rd_ret int int

fun read_next ::
  "rd_event list \<Rightarrow> nat \<Rightarrow> (int \<times> byte list \<times> int option \<times> rd_event list) option" where
  "read_next [] n = None"
| "read_next (Rd_data bs # tr) n =
     Some (int (min n (length bs)), take n bs, None,
           if length bs \<le> n then tr else Rd_data (drop n bs) # tr)"
| "read_next (Rd_ret r e # tr) n = Some (r, [], Some e, tr)"

fun ev_size :: "rd_event \<Rightarrow> nat" where
  "ev_size (Rd_data bs) = Suc (length bs)"
| "ev_size (Rd_ret r e) = 1"

definition tr_size :: "rd_event list \<Rightarrow> nat" where
  "tr_size tr = sum_list (map ev_size tr)"

lemma read_next_smaller:
  "read_next tr n = Some (r, bs, eo, tr') \<Longrightarrow> 0 < n \<Longrightarrow> tr_size tr' < tr_size tr"
  by (cases "(tr, n)" rule: read_next.cases) (auto simp: tr_size_def split: if_splits)

text \<open>
  Two descriptions of a script, used to state what the read operation makes of it. The
  first is \<^verbatim>\<open>errno\<close> after every call of the script has been answered, given \<^verbatim>\<open>errno\<close>
  before. The second is what the script amounts to for a caller that wants \<open>n\<close> bytes
  and calls until it has them, trying again after a call that was interrupted (a negative
  return with \<^verbatim>\<open>errno = EINTR\<close>): the \<open>n\<close> bytes arrive (\<open>Delivers\<close>, with \<^verbatim>\<open>errno\<close>
  and the rest of the script); or a call ends it by returning 0 or a negative number
  (\<open>Stops\<close>, with the bytes that arrived before, the number, \<^verbatim>\<open>errno\<close> and the rest of
  the script); or the script runs out (\<open>Waits\<close>, with the bytes that arrived and
  \<^verbatim>\<open>errno\<close>). A call that returns a positive number without storing bytes is outside
  the contract of a read operation (\<open>Garbled\<close>).
\<close>

fun errno_after :: "int \<Rightarrow> rd_event list \<Rightarrow> int" where
  "errno_after e [] = e"
| "errno_after e (Rd_data bs # tr) = errno_after e tr"
| "errno_after e (Rd_ret r x # tr) = errno_after x tr"

datatype delivery =
    Delivers "byte list" int "rd_event list"
  | Stops "byte list" int int "rd_event list"
  | Waits "byte list" int
  | Garbled

fun prepend :: "byte list \<Rightarrow> delivery \<Rightarrow> delivery" where
  "prepend bs (Delivers cs e tr) = Delivers (bs @ cs) e tr"
| "prepend bs (Stops cs r e tr) = Stops (bs @ cs) r e tr"
| "prepend bs (Waits cs e) = Waits (bs @ cs) e"
| "prepend bs Garbled = Garbled"

fun deliver :: "nat \<Rightarrow> int \<Rightarrow> rd_event list \<Rightarrow> delivery" where
  "deliver n e [] = (if n = 0 then Delivers [] e [] else Waits [] e)"
| "deliver n e (Rd_data bs # tr) =
     (if n = 0 then Delivers [] e (Rd_data bs # tr)
      else if bs = [] then Stops [] 0 e tr
      else if n \<le> length bs
      then Delivers (take n bs) e (if length bs \<le> n then tr else Rd_data (drop n bs) # tr)
      else prepend bs (deliver (n - length bs) e tr))"
| "deliver n e (Rd_ret r x # tr) =
     (if n = 0 then Delivers [] e (Rd_ret r x # tr)
      else if r < 0 \<and> x = EINTR then deliver n x tr
      else if r \<le> 0 then Stops [] r x tr
      else Garbled)"

subsection \<open>Reading\<close>

text \<open>
  How a part of \<^verbatim>\<open>sb_sasl_read\<close> ends: the layer below never answers
  (\<open>Blocked\<close>, with the state in which the call waits), the function returns a number
  (\<open>Returned\<close>), or control goes on to the next statement (\<open>Proceed\<close>). The state of
  the two loops is the staging buffer \<^verbatim>\<open>sec_buf_in\<close>, \<^verbatim>\<open>errno\<close> and the layer
  below.
\<close>

datatype 'a phase = Blocked 'a | Returned int 'a | Proceed 'a

type_synonym loop_state = "Sockbuf_Buf \<times> int \<times> rd_event list"

text \<open>
  The first loop, "Read the length of the packet". Every call stores what it reads at
  \<^verbatim>\<open>buf_base\<close>, offset 0, as the source does.
\<close>

function sb_sasl_read_header :: "Sockbuf_Buf \<Rightarrow> int \<Rightarrow> rd_event list \<Rightarrow> loop_state phase" where
  "sb_sasl_read_header b err tr =
     (if buf_ptr b < 4 then
        (case read_next tr (4 - buf_ptr b) of
           None \<Rightarrow> Blocked (b, err, tr)
         | Some (ret, bs, eo, tr') \<Rightarrow>
             (let b' = b\<lparr>buf_base := store (buf_base b) 0 bs\<rparr>;
                  err' = (case eo of None \<Rightarrow> err | Some e \<Rightarrow> e)
              in if ret < 0 \<and> err' = EINTR then sb_sasl_read_header b' err' tr'
                 else if ret \<le> 0 then Returned ret (b', err', tr')
                 else sb_sasl_read_header (b'\<lparr>buf_ptr := buf_ptr b' + nat ret\<rparr>) err' tr'))
      else Proceed (b, err, tr))"
  by pat_completeness auto
termination
  by (relation "measure (\<lambda>(b, err, tr). tr_size tr)") (auto dest: read_next_smaller)

text \<open>
  The second loop, "Did we read the whole encrypted packet?". It stores at
  \<^verbatim>\<open>buf_base + buf_ptr\<close>.
\<close>

function sb_sasl_read_body :: "Sockbuf_Buf \<Rightarrow> int \<Rightarrow> rd_event list \<Rightarrow> loop_state phase" where
  "sb_sasl_read_body b err tr =
     (if buf_ptr b < buf_end b then
        (case read_next tr (buf_end b - buf_ptr b) of
           None \<Rightarrow> Blocked (b, err, tr)
         | Some (ret, bs, eo, tr') \<Rightarrow>
             (let b' = b\<lparr>buf_base := store (buf_base b) (buf_ptr b) bs\<rparr>;
                  err' = (case eo of None \<Rightarrow> err | Some e \<Rightarrow> e)
              in if ret < 0 \<and> err' = EINTR then sb_sasl_read_body b' err' tr'
                 else if ret \<le> 0 then Returned ret (b', err', tr')
                 else sb_sasl_read_body (b'\<lparr>buf_ptr := buf_ptr b' + nat ret\<rparr>) err' tr'))
      else Proceed (b, err, tr))"
  by pat_completeness auto
termination
  by (relation "measure (\<lambda>(b, err, tr). tr_size tr)") (auto dest: read_next_smaller)

declare sb_sasl_read_header.simps [simp del] sb_sasl_read_body.simps [simp del]

text \<open>
  The statements of \<^verbatim>\<open>sb_sasl_read\<close> from the first loop to the end of the second,
  which gather one whole packet in the staging buffer: the first loop, the frame size
  of the packet that "always starts at \<^verbatim>\<open>p->sec_buf_in.buf_base\<close>", the growth of the
  buffer "if neccessary" (a failure returns \<open>-1\<close> with \<^verbatim>\<open>errno = ENOMEM\<close>), the new
  \<^verbatim>\<open>buf_end\<close>, and the second loop.
\<close>

definition sb_sasl_read_packet ::
  "'c sasl_env \<Rightarrow> Sockbuf_Buf \<Rightarrow> int \<Rightarrow> rd_event list \<Rightarrow> loop_state phase" where
  "sb_sasl_read_packet env b0 err0 tr0 =
     (case sb_sasl_read_header b0 err0 tr0 of
        Blocked st \<Rightarrow> Blocked st
      | Returned r st \<Rightarrow> Returned r st
      | Proceed (b, e, tr) \<Rightarrow>
          (let ret = unat (sb_sasl_pkt_length (host_order env) (buf_base b)) in
           case (if buf_size b < ret then grow_buffer env b ret else Some b) of
             None \<Rightarrow> Returned (- 1) (b, ENOMEM, tr)
           | Some b2 \<Rightarrow> sb_sasl_read_body (b2\<lparr>buf_end := ret\<rparr>) e tr))"

text \<open>
  What \<^verbatim>\<open>sb_sasl_read\<close> works on: the private data of the descriptor,
  \<^verbatim>\<open>errno\<close> and the layer below.
\<close>

record 'c sbiod =
  sbiod_pvt :: "'c sb_sasl_data"
  sb_errno :: int
  sbiod_next :: "rd_event list"

text \<open>
  \<^verbatim>\<open>sb_sasl_read\<close>. The result is \<open>None\<close> when the call never returns, and else
  the number returned, the bytes stored in the caller's buffer and the state
  afterwards. The messages logged are not part of the model, and a decode operation
  that fails is taken to leave its output arguments (the ready buffer) alone.
\<close>

definition sb_sasl_read ::
  "'c sasl_env \<Rightarrow> 'c sbiod \<Rightarrow> nat \<Rightarrow> (int \<times> byte list \<times> 'c sbiod) option" where
  "sb_sasl_read env s len =
     (let p = sbiod_pvt s;
          (ret, out1, bin) = ber_pvt_sb_copy_out (buf_in p) len;
          bufptr = ret;
          len' = len - ret
      in if len' = 0 then Some (int bufptr, out1, s\<lparr>sbiod_pvt := p\<lparr>buf_in := bin\<rparr>\<rparr>)
         else
           (let p1 = p\<lparr>buf_in := ber_pvt_sb_buf_destroy bin\<rparr> in
            case sb_sasl_read_packet env (sec_buf_in p1) (sb_errno s) (sbiod_next s) of
              Blocked st \<Rightarrow> None
            | Returned r (b, e, tr) \<Rightarrow>
                Some (r, out1, \<lparr>sbiod_pvt = p1\<lparr>sec_buf_in := b\<rparr>, sb_errno = e, sbiod_next = tr\<rparr>)
            | Proceed (b4, e4, tr4) \<Rightarrow>
                (let (rc, plain, ctx') =
                       sasl_decode env (sasl_context p1) (take (buf_end b4) (buf_base b4))
                 in if rc \<noteq> SASL_OK then
                      Some (- 1, out1,
                            \<lparr>sbiod_pvt = p1\<lparr>sasl_context := ctx',
                               sec_buf_in := sb_sasl_drop_packet (host_order env) b4\<rparr>,
                             sb_errno = EIO, sbiod_next = tr4\<rparr>)
                    else
                      (let b5 = sb_sasl_drop_packet (host_order env) b4;
                           bin1 = (buf_in p1)\<lparr>buf_base := plain, buf_end := length plain\<rparr>;
                           bin2 = bin1\<lparr>buf_size := buf_end bin1\<rparr>;
                           (n, out2, bin3) = ber_pvt_sb_copy_out bin2 len'
                       in Some (int (bufptr + n), out1 @ out2,
                                \<lparr>sbiod_pvt = p1\<lparr>sasl_context := ctx', sec_buf_in := b5,
                                   buf_in := bin3\<rparr>,
                                 sb_errno = e4, sbiod_next = tr4\<rparr>)))))"

subsection \<open>Writing\<close>





subsection \<open>Installing the adapter\<close>

text \<open>
  A \<^verbatim>\<open>Sockbuf_IO\<close> is a table of operations, known by its address: the table
  \<^verbatim>\<open>ldap_pvt_sockbuf_io_sasl\<close> of this file, or one of another layer.
\<close>

datatype Sockbuf_IO = ldap_pvt_sockbuf_io_sasl | other_sockbuf_io nat

definition LBER_SBIOD_LEVEL_APPLICATION :: int where "LBER_SBIOD_LEVEL_APPLICATION = 30"

text \<open>
  \<^verbatim>\<open>ldap_pvt_sasl_install\<close>. The two liblber functions it calls are parameters:
  \<open>has_io sb io\<close> is \<^verbatim>\<open>ber_sockbuf_ctrl(sb, LBER_SB_OPT_HAS_IO, io)\<close> read as a
  truth value, and \<open>add_io sb io level arg\<close> is \<^verbatim>\<open>ber_sockbuf_add_io\<close>, giving its
  return code (which the source ignores) and the stream afterwards.
\<close>

definition ldap_pvt_sasl_install ::
  "('sb \<Rightarrow> Sockbuf_IO \<Rightarrow> bool) \<Rightarrow> ('sb \<Rightarrow> Sockbuf_IO \<Rightarrow> int \<Rightarrow> 'a \<Rightarrow> int \<times> 'sb)
     \<Rightarrow> 'sb \<Rightarrow> 'a \<Rightarrow> int \<times> 'sb" where
  "ldap_pvt_sasl_install has_io add_io sb ctx_arg =
     (let sb' = (if \<not> has_io sb ldap_pvt_sockbuf_io_sasl
                 then snd (add_io sb ldap_pvt_sockbuf_io_sasl LBER_SBIOD_LEVEL_APPLICATION ctx_arg)
                 else sb)
      in (LDAP_SUCCESS, sb'))"

text \<open>
  Modelled from the spec: \<^verbatim>\<open>ber_sockbuf_ctrl\<close> and \<^verbatim>\<open>ber_sockbuf_add_io\<close> belong to
  liblber and are not part of this file. The spec only says that installing is "the act
  of wrapping a raw byte stream with the Streaming I/O Adapter". For the concrete runs a
  stream is the list of its layers, highest level first, each with its level, its table
  and the argument it was set up with.
\<close>

type_synonym 'a Sockbuf = "(int \<times> Sockbuf_IO \<times> 'a) list"

definition ber_sockbuf_has_io :: "'a Sockbuf \<Rightarrow> Sockbuf_IO \<Rightarrow> bool" where
  "ber_sockbuf_has_io sb io = list_ex (\<lambda>l. fst (snd l) = io) sb"

definition ber_sockbuf_add_io :: "'a Sockbuf \<Rightarrow> Sockbuf_IO \<Rightarrow> int \<Rightarrow> 'a \<Rightarrow> int \<times> 'a Sockbuf" where
  "ber_sockbuf_add_io sb io level arg =
     (0, takeWhile (\<lambda>l. level < fst l) sb @ (level, io, arg) # dropWhile (\<lambda>l. level < fst l) sb)"

section \<open>The bind operations\<close>

text \<open>
  The fields of \<^verbatim>\<open>LDAP\<close> (declared in \<^verbatim>\<open>ldap-int.h\<close>) that the functions below
  read or write. \<^verbatim>\<open>ld_sasl_context\<close>, \<^verbatim>\<open>ld_error\<close> and \<^verbatim>\<open>ld_matched\<close> are
  pointers: \<open>None\<close> is \<^verbatim>\<open>NULL\<close>.
\<close>

record ('sb, 'c) LDAP =
  ld_version :: int
  ld_errno :: int
  ld_error :: "string option"
  ld_matched :: "string option"
  ld_msgid :: int
  ld_defbinddn :: "string option"
  ld_sasl_context :: "'c option"
  ld_sb :: 'sb
  ldo_sasl_minssf :: int
  ldo_sasl_maxssf :: int

subsection \<open>Sending a bind request\<close>

text \<open>
  A \<^verbatim>\<open>struct berval\<close> is the bytes \<^verbatim>\<open>bv_val\<close> points to, \<^verbatim>\<open>bv_len\<close> of them;
  \<open>None\<close> is a null \<^verbatim>\<open>bv_val\<close>. A pointer to a \<^verbatim>\<open>struct berval\<close> is a
  \<open>berval option\<close>, \<open>None\<close> being \<^verbatim>\<open>NULL\<close>.

  What \<^verbatim>\<open>ldap_sasl_bind\<close> encodes with \<^verbatim>\<open>ber_printf\<close>: the message id, the
  protocol version, the name and the authentication choice.
\<close>

type_synonym berval = "byte list option"

datatype bind_auth = Auth_simple "berval option" | Auth_sasl string "berval option"

datatype bind_request = Bind_request int int string bind_auth

text \<open>
  The functions \<^verbatim>\<open>ldap_sasl_bind\<close> calls, as the answers they give:
  \<^verbatim>\<open>ldap_alloc_ber_with_options\<close> (does it give an element), the first
  \<^verbatim>\<open>ber_printf\<close> (its return code), \<^verbatim>\<open>ldap_int_put_controls\<close> (its return code and
  the \<^verbatim>\<open>ld_errno\<close> it leaves), the closing \<^verbatim>\<open>ber_printf\<close>, and
  \<^verbatim>\<open>ldap_send_initial_request\<close> (the message id it returns and the \<^verbatim>\<open>ld_errno\<close> it
  leaves).
\<close>

record send_env =
  se_alloc_ber :: bool
  se_printf :: int
  se_put_controls :: "int \<times> int"
  se_printf_close :: int
  se_send :: "bind_request \<Rightarrow> int \<times> int"

text \<open>
  \<^verbatim>\<open>ldap_sasl_bind\<close>. \<^verbatim>\<open>LDAP_SASL_SIMPLE\<close> is the null pointer: the mechanism
  \<open>None\<close>. \<open>msgidp_ok\<close> says that \<^verbatim>\<open>msgidp\<close> is not \<^verbatim>\<open>NULL\<close>. The result is the
  return code, the \<^verbatim>\<open>LDAP\<close> afterwards, the value stored in \<^verbatim>\<open>*msgidp\<close> (if any)
  and the request handed to \<^verbatim>\<open>ldap_send_initial_request\<close> (if any). The
  \<^verbatim>\<open>assert\<close>s on the arguments and the cache flush are not modelled.
\<close>

definition ldap_sasl_bind ::
  "send_env \<Rightarrow> ('sb, 'c) LDAP \<Rightarrow> string option \<Rightarrow> string option \<Rightarrow> berval option \<Rightarrow> bool
     \<Rightarrow> int \<times> ('sb, 'c) LDAP \<times> int option \<times> bind_request option" where
  "ldap_sasl_bind env ld dn mechanism cred msgidp_ok =
     (if \<not> msgidp_ok then (LDAP_PARAM_ERROR, ld\<lparr>ld_errno := LDAP_PARAM_ERROR\<rparr>, None, None)
      else
        (let dn1 = (if mechanism = None \<and> dn = None \<and> cred \<noteq> None then ld_defbinddn ld else dn)
         in if mechanism \<noteq> None \<and> ld_version ld < LDAP_VERSION3
            then (LDAP_NOT_SUPPORTED, ld\<lparr>ld_errno := LDAP_NOT_SUPPORTED\<rparr>, None, None)
            else
              (let dn2 = (case dn1 of None \<Rightarrow> [] | Some d \<Rightarrow> d) in
               if \<not> se_alloc_ber env
               then (LDAP_NO_MEMORY, ld\<lparr>ld_errno := LDAP_NO_MEMORY\<rparr>, None, None)
               else
                 (let ld1 = ld\<lparr>ld_msgid := ld_msgid ld + 1\<rparr>;
                      req = Bind_request (ld_msgid ld1) (ld_version ld1) dn2
                              (case mechanism of
                                 None \<Rightarrow> Auth_simple cred
                               | Some m \<Rightarrow> Auth_sasl m cred)
                  in if se_printf env = - 1
                     then (- 1, ld1\<lparr>ld_errno := LDAP_ENCODING_ERROR\<rparr>, None, None)
                     else if fst (se_put_controls env) \<noteq> LDAP_SUCCESS
                     then (snd (se_put_controls env),
                           ld1\<lparr>ld_errno := snd (se_put_controls env)\<rparr>, None, None)
                     else if se_printf_close env = - 1
                     then (LDAP_ENCODING_ERROR, ld1\<lparr>ld_errno := LDAP_ENCODING_ERROR\<rparr>,
                           None, None)
                     else
                       (let (msgid, e) = se_send env req;
                            ld2 = ld1\<lparr>ld_errno := e\<rparr>
                        in if msgid < 0 then (ld_errno ld2, ld2, Some msgid, Some req)
                           else (LDAP_SUCCESS, ld2, Some msgid, Some req))))))"

subsection \<open>Reading a bind response\<close>

text \<open>
  Modelled from the spec: the BER element of a message is read with liblber's
  \<^verbatim>\<open>ber_scanf\<close> and \<^verbatim>\<open>ber_peek_tag\<close>, which are not part of this file. The spec's
  \<open>decode_bind_response\<close> gives "\<open>{result_code, matched_name, diagnostic_message,
  optional_server_credential_blob}\<close>". A \<^verbatim>\<open>BerElement\<close> is what these calls find in it:

  \<^item> \<open>ber_result\<close>, the outcome of the first \<^verbatim>\<open>ber_scanf\<close>: \<open>None\<close> for
    \<^verbatim>\<open>LBER_ERROR\<close>, else the result code, the matched name and the diagnostic message
    (the format \<^verbatim>\<open>"{ia}"\<close> of a protocol below version 2 has no matched name);
  \<^item> \<open>ber_referral\<close>: \<open>None\<close> when the tag that follows is not \<^verbatim>\<open>LDAP_TAG_REFERRAL\<close>,
    else whether skipping the referral succeeds;
  \<^item> \<open>ber_creds\<close>: \<open>None\<close> when the tag that follows is not
    \<^verbatim>\<open>LDAP_TAG_SASL_RES_CREDS\<close>, else the outcome of \<^verbatim>\<open>ber_scanf\<close> with \<^verbatim>\<open>"O"\<close>,
    \<open>None\<close> for \<^verbatim>\<open>LBER_ERROR\<close> or the credentials.
\<close>

record BerElement =
  ber_result :: "(int \<times> string \<times> string) option"
  ber_referral :: "bool option"
  ber_creds :: "byte list option option"

record LDAPMessage =
  lm_msgtype :: int
  lm_ber :: BerElement

text \<open>
  \<^verbatim>\<open>ldap_parse_sasl_bind_result\<close>. \<open>dup_ok\<close> says whether \<^verbatim>\<open>ber_dup\<close> gives an
  element; \<open>res\<close> is the message (\<open>None\<close> for \<^verbatim>\<open>NULL\<close>); \<open>servercredp_ok\<close> says that
  \<^verbatim>\<open>servercredp\<close> is not \<^verbatim>\<open>NULL\<close>. The result is the return code, the \<^verbatim>\<open>LDAP\<close>
  afterwards and what is stored in \<^verbatim>\<open>*servercredp\<close> (if anything: \<^verbatim>\<open>NULL\<close> or the
  credentials). The \<^verbatim>\<open>assert\<close>s and the releases of memory (among them
  \<^verbatim>\<open>freeit\<close>) are not modelled; a \<^verbatim>\<open>ber_scanf\<close> that fails is taken to store
  nothing.
\<close>

definition ldap_parse_sasl_bind_result ::
  "bool \<Rightarrow> ('sb, 'c) LDAP \<Rightarrow> LDAPMessage option \<Rightarrow> bool
     \<Rightarrow> int \<times> ('sb, 'c) LDAP \<times> byte list option option" where
  "ldap_parse_sasl_bind_result dup_ok ld res servercredp_ok =
     (case res of
        None \<Rightarrow> (LDAP_PARAM_ERROR, ld, None)
      | Some msg \<Rightarrow>
          if servercredp_ok \<and> ld_version ld < LDAP_VERSION2 then (LDAP_NOT_SUPPORTED, ld, None)
          else
            (let sc0 = (if servercredp_ok then Some None else None) in
             if lm_msgtype msg \<noteq> LDAP_RES_BIND
             then (LDAP_PARAM_ERROR, ld\<lparr>ld_errno := LDAP_PARAM_ERROR\<rparr>, sc0)
             else
               (let ld1 = ld\<lparr>ld_error := None, ld_matched := None\<rparr>;
                    ber = lm_ber msg
                in if \<not> dup_ok then (LDAP_NO_MEMORY, ld1\<lparr>ld_errno := LDAP_NO_MEMORY\<rparr>, sc0)
                   else
                     (case ber_result ber of
                        None \<Rightarrow>
                          (LDAP_DECODING_ERROR, ld1\<lparr>ld_errno := LDAP_DECODING_ERROR\<rparr>, sc0)
                      | Some (errcode, matched, err) \<Rightarrow>
                          if ld_version ld < LDAP_VERSION2
                          then (errcode, ld1\<lparr>ld_error := Some err, ld_errno := errcode\<rparr>, sc0)
                          else
                            (let ld2 = ld1\<lparr>ld_matched := Some matched, ld_error := Some err\<rparr>
                             in if ber_referral ber = Some False
                                then (LDAP_DECODING_ERROR,
                                      ld2\<lparr>ld_errno := LDAP_DECODING_ERROR\<rparr>, sc0)
                                else
                                  (case ber_creds ber of
                                     None \<Rightarrow> (errcode, ld2\<lparr>ld_errno := errcode\<rparr>, sc0)
                                   | Some None \<Rightarrow>
                                       (LDAP_DECODING_ERROR,
                                        ld2\<lparr>ld_errno := LDAP_DECODING_ERROR\<rparr>, sc0)
                                   | Some (Some bs) \<Rightarrow>
                                       (errcode, ld2\<lparr>ld_errno := errcode\<rparr>,
                                        if servercredp_ok then Some (Some bs) else None)))))))"

subsection \<open>The negotiation\<close>

text \<open>
  What \<^verbatim>\<open>ldap_pvt_sasl_bind\<close> does to the world outside, in the order in which it
  does it: the calls of the provider, the bind exchanges with the server (each with the
  request that \<^verbatim>\<open>ldap_sasl_bind\<close> handed to \<^verbatim>\<open>ldap_send_initial_request\<close>, if it
  got that far), and the releases of memory. A credential blob is its bytes; \<open>None\<close> is
  a null \<^verbatim>\<open>bv_val\<close> or a null \<^verbatim>\<open>struct berval *\<close>.
\<close>

datatype bind_event =
    Open_defconn
  | Sasl_dispose
  | Sasl_client_new string
  | Sasl_setprop string
  | Sasl_client_start string
  | Ldap_sasl_bind_s "bind_request option"
  | Ldap_free "byte list"
  | Sasl_client_step "byte list option"
  | Ber_bvfree "byte list option"
  | Sasl_getprop_ssf
  | Sasl_install

text \<open>
  The answers of the functions that \<^verbatim>\<open>ldap_pvt_sasl_bind\<close> and
  \<^verbatim>\<open>ldap_sasl_bind_s\<close> call and that are not part of this file: is the descriptor of
  the stream valid at first; \<^verbatim>\<open>ldap_open_defconn\<close> (return code and the \<^verbatim>\<open>ld_errno\<close>
  it leaves); \<^verbatim>\<open>ldap_host_connected_to\<close>; \<^verbatim>\<open>sasl_client_new\<close> (status and the
  context it stores); \<^verbatim>\<open>getpeername\<close> and \<^verbatim>\<open>getsockname\<close>; \<^verbatim>\<open>sasl_client_start\<close>
  (status, outbound blob and chosen mechanism); the successive calls of
  \<^verbatim>\<open>sasl_client_step\<close> (status and outbound blob; a call beyond the end of the list
  never returns); what \<^verbatim>\<open>ldap_sasl_bind\<close> is answered when it builds and sends a
  request; \<^verbatim>\<open>ldap_result\<close> for a message id (return code, the \<^verbatim>\<open>ld_errno\<close> it leaves
  and the message it stores); \<^verbatim>\<open>ber_dup\<close>; \<^verbatim>\<open>ldap_result2error\<close> for a message
  (return code and the \<^verbatim>\<open>ld_errno\<close> it leaves); \<^verbatim>\<open>sasl_getprop\<close> for the strength
  factor (status and the number, \<open>None\<close> for a null pointer); and the two liblber
  functions of \<^verbatim>\<open>ldap_pvt_sasl_install\<close>. Of what \<^verbatim>\<open>ldap_result\<close> and
  \<^verbatim>\<open>ldap_result2error\<close> do to the \<^verbatim>\<open>LDAP\<close>, only \<^verbatim>\<open>ld_errno\<close> is modelled.
\<close>

record ('sb, 'c) bind_env =
  be_fd_valid :: bool
  be_open_defconn :: "int \<times> int"
  be_host :: "string option"
  be_client_new :: "int \<times> 'c option"
  be_getpeername :: int
  be_getsockname :: int
  be_client_start :: "int \<times> byte list option \<times> string"
  be_client_step :: "(int \<times> byte list option) list"
  be_send :: send_env
  be_result :: "int \<Rightarrow> int \<times> int \<times> LDAPMessage option"
  be_ber_dup :: bool
  be_result2error :: "LDAPMessage option \<Rightarrow> int \<times> int"
  be_ssf :: "int \<times> nat option"
  be_has_io :: "'sb \<Rightarrow> Sockbuf_IO \<Rightarrow> bool"
  be_add_io :: "'sb \<Rightarrow> Sockbuf_IO \<Rightarrow> int \<Rightarrow> 'c option \<Rightarrow> int \<times> 'sb"

text \<open>
  \<^verbatim>\<open>ldap_sasl_bind_s\<close>. \<open>servercredp_ok\<close> says that \<^verbatim>\<open>servercredp\<close> is not
  \<^verbatim>\<open>NULL\<close>. The result is the return code, the \<^verbatim>\<open>LDAP\<close> afterwards, what is stored
  in \<^verbatim>\<open>*servercredp\<close> last (if anything) and the request sent (if any). The
  releases of memory are not modelled.
\<close>

definition ldap_sasl_bind_s ::
  "('sb, 'c) bind_env \<Rightarrow> ('sb, 'c) LDAP \<Rightarrow> string option \<Rightarrow> string option \<Rightarrow> berval option
     \<Rightarrow> bool \<Rightarrow> int \<times> ('sb, 'c) LDAP \<times> byte list option option \<times> bind_request option" where
  "ldap_sasl_bind_s env ld dn mechanism cred servercredp_ok =
     (if servercredp_ok \<and> ld_version ld < LDAP_VERSION3
      then (LDAP_NOT_SUPPORTED, ld\<lparr>ld_errno := LDAP_NOT_SUPPORTED\<rparr>, None, None)
      else
        (let sc0 = (if servercredp_ok then Some None else None);
             (rc, ld1, msgid, req) = ldap_sasl_bind (be_send env) ld dn mechanism cred True
         in if rc \<noteq> LDAP_SUCCESS then (rc, ld1, sc0, req)
            else
              (case msgid of
                 None \<Rightarrow> (rc, ld1, sc0, req)
               | Some m \<Rightarrow>
                   (let (r, e, result) = be_result env m;
                        ld2 = ld1\<lparr>ld_errno := e\<rparr>
                    in if r = - 1 then (ld_errno ld2, ld2, sc0, req)
                       else
                         (let (rc2, ld3, parsed) =
                                (if servercredp_ok
                                 then ldap_parse_sasl_bind_result (be_ber_dup env) ld2 result True
                                 else (rc, ld2, None));
                              scredp = (case parsed of None \<Rightarrow> None | Some x \<Rightarrow> x)
                          in if rc2 \<noteq> LDAP_SUCCESS \<and> rc2 \<noteq> LDAP_SASL_BIND_IN_PROGRESS
                             then (rc2, ld3, sc0, req)
                             else
                               (let (rc3, e3) = be_result2error env result;
                                    ld4 = ld3\<lparr>ld_errno := e3\<rparr>
                                in if rc3 = LDAP_SUCCESS \<or> rc3 = LDAP_SASL_BIND_IN_PROGRESS
                                   then (rc3, ld4,
                                         if servercredp_ok then Some scredp else None, req)
                                   else (rc3, ld4, sc0, req)))))))"

text \<open>\<^verbatim>\<open>if ( ccred.bv_val != NULL ) LDAP_FREE( ccred.bv_val )\<close>.\<close>

fun release :: "byte list option \<Rightarrow> bind_event list" where
  "release None = []"
| "release (Some c) = [Ldap_free c]"



text \<open>
  How the \<^verbatim>\<open>do ... while\<close> loop ends: it returns from the function with a code, or
  it is left by \<^verbatim>\<open>break\<close>. Both come with the \<^verbatim>\<open>LDAP\<close> and the events so far.
\<close>

datatype ('sb, 'c) loop_end =
    Loop_return int "('sb, 'c) LDAP" "bind_event list"
  | Loop_break "('sb, 'c) LDAP" "bind_event list"

text \<open>
  The loop. Its arguments are the answers of \<^verbatim>\<open>sasl_client_step\<close> still to come, the
  \<^verbatim>\<open>LDAP\<close>, the name, the mechanism, the outbound blob \<^verbatim>\<open>ccred\<close>, the server's blob
  \<^verbatim>\<open>scred\<close> and the events so far. \<^verbatim>\<open>ldap_sasl_bind_s\<close> is called with
  \<^verbatim>\<open>&ccred\<close> and \<^verbatim>\<open>&scred\<close>, neither of them a null pointer.
\<close>

fun sasl_bind_loop ::
  "('sb, 'c) bind_env \<Rightarrow> (int \<times> byte list option) list \<Rightarrow> ('sb, 'c) LDAP \<Rightarrow> string option
     \<Rightarrow> string \<Rightarrow> byte list option \<Rightarrow> byte list option \<Rightarrow> bind_event list
     \<Rightarrow> ('sb, 'c) loop_end option" where
  "sasl_bind_loop env steps ld dn mech ccred scred evs =
     (let (rc, ld1, stored, req) = ldap_sasl_bind_s env ld dn (Some mech) (Some ccred) True;
          scred1 = (case stored of None \<Rightarrow> scred | Some x \<Rightarrow> x);
          evs1 = evs @ [Ldap_sasl_bind_s req]
      in if rc = LDAP_SUCCESS then Some (Loop_break ld1 evs1)
         else if rc \<noteq> LDAP_SASL_BIND_IN_PROGRESS
         then Some (Loop_return (ld_errno ld1) (ld1\<lparr>ld_sasl_context := None\<rparr>)
                      (evs1 @ release ccred @ [Sasl_dispose]))
         else
           (case steps of
              [] \<Rightarrow> None
            | (saslrc, ccred') # steps' \<Rightarrow>
                (let evs2 = evs1 @ release ccred @ [Sasl_client_step scred1, Ber_bvfree scred1]
                 in if saslrc \<noteq> SASL_OK \<and> saslrc \<noteq> SASL_CONTINUE
                    then Some (Loop_return (sasl_err2ldap saslrc)
                                 (ld1\<lparr>ld_errno := sasl_err2ldap saslrc,
                                      ld_sasl_context := None\<rparr>)
                                 (evs2 @ [Sasl_dispose]))
                    else sasl_bind_loop env steps' ld1 dn mech ccred' scred1 evs2)))"

declare sasl_bind_loop.simps [simp del]

text \<open>
  The negotiation proper, from \<^verbatim>\<open>ccred.bv_val = NULL\<close> to the end of the loop: the
  start of the provider, \<^verbatim>\<open>scred = NULL\<close>, and the loop.
\<close>

definition sasl_bind_negotiate ::
  "('sb, 'c) bind_env \<Rightarrow> ('sb, 'c) LDAP \<Rightarrow> string option \<Rightarrow> string \<Rightarrow> bind_event list
     \<Rightarrow> ('sb, 'c) loop_end option" where
  "sasl_bind_negotiate env ld dn mechs evs =
     (let (saslrc, ccred, mech) = be_client_start env;
          evs1 = evs @ [Sasl_client_start mechs]
      in if saslrc \<noteq> SASL_OK \<and> saslrc \<noteq> SASL_CONTINUE
         then Some (Loop_return (sasl_err2ldap saslrc)
                      (ld\<lparr>ld_errno := sasl_err2ldap saslrc, ld_sasl_context := None\<rparr>)
                      (evs1 @ [Sasl_dispose]))
         else sasl_bind_loop env (be_client_step env) ld dn mech ccred None evs1)"

text \<open>
  \<^verbatim>\<open>ldap_pvt_sasl_bind\<close>. The result is \<open>None\<close> when the call never returns, and
  else the return code, the \<^verbatim>\<open>LDAP\<close> afterwards and the events. The callbacks and
  the controls are only handed on and are left out.
\<close>

definition ldap_pvt_sasl_bind ::
  "('sb, 'c) bind_env \<Rightarrow> ('sb, 'c) LDAP \<Rightarrow> string option \<Rightarrow> string
     \<Rightarrow> (int \<times> ('sb, 'c) LDAP \<times> bind_event list) option" where
  "ldap_pvt_sasl_bind env ld dn mechs =
     (if ld_version ld < LDAP_VERSION3
      then Some (LDAP_NOT_SUPPORTED, ld\<lparr>ld_errno := LDAP_NOT_SUPPORTED\<rparr>, [])
      else if \<not> be_fd_valid env \<and> fst (be_open_defconn env) < 0
      then Some (snd (be_open_defconn env), ld\<lparr>ld_errno := snd (be_open_defconn env)\<rparr>,
                 [Open_defconn])
      else
        (let ld0 = (if be_fd_valid env then ld else ld\<lparr>ld_errno := snd (be_open_defconn env)\<rparr>);
             evs0 = (if be_fd_valid env then [] else [Open_defconn])
         in case be_host env of
              None \<Rightarrow> Some (LDAP_UNAVAILABLE, ld0\<lparr>ld_errno := LDAP_UNAVAILABLE\<rparr>, evs0)
            | Some host \<Rightarrow>
                (let evs1 = evs0 @ (if ld_sasl_context ld0 \<noteq> None then [Sasl_dispose] else [])
                            @ [Sasl_client_new host];
                     (saslrc, ctx) = be_client_new env;
                     ld1 = ld0\<lparr>ld_sasl_context := ctx\<rparr>
                 in if saslrc \<noteq> SASL_OK \<and> saslrc \<noteq> SASL_CONTINUE
                    then Some (sasl_err2ldap saslrc,
                               ld1\<lparr>ld_errno := sasl_err2ldap saslrc, ld_sasl_context := None\<rparr>,
                               evs1 @ [Sasl_dispose])
                    else if be_getpeername env = - 1
                    then Some (LDAP_OPERATIONS_ERROR, ld1\<lparr>ld_errno := LDAP_OPERATIONS_ERROR\<rparr>,
                               evs1)
                    else if be_getsockname env = - 1
                    then Some (LDAP_OPERATIONS_ERROR, ld1\<lparr>ld_errno := LDAP_OPERATIONS_ERROR\<rparr>,
                               evs1 @ [Sasl_setprop ''SASL_IP_REMOTE''])
                    else
                      (case sasl_bind_negotiate env ld1 dn mechs
                              (evs1 @ [Sasl_setprop ''SASL_IP_REMOTE'',
                                       Sasl_setprop ''SASL_IP_LOCAL'',
                                       Sasl_setprop ''SASL_SEC_PROPS'']) of
                         None \<Rightarrow> None
                       | Some (Loop_return rc ld2 evs2) \<Rightarrow> Some (rc, ld2, evs2)
                       | Some (Loop_break ld2 evs2) \<Rightarrow>
                           (let (ssfrc, ssf) = be_ssf env;
                                strong = (ssfrc = SASL_OK
                                          \<and> (case ssf of None \<Rightarrow> False | Some n \<Rightarrow> n \<noteq> 0))
                            in if strong
                               then Some (LDAP_SUCCESS,
                                          ld2\<lparr>ld_sb := snd (ldap_pvt_sasl_install (be_has_io env)
                                                  (be_add_io env) (ld_sb ld2)
                                                  (ld_sasl_context ld2))\<rparr>,
                                          evs2 @ [Sasl_getprop_ssf, Sasl_install])
                               else Some (LDAP_SUCCESS, ld2, evs2 @ [Sasl_getprop_ssf]))))))"


section \<open>The credential callbacks\<close>

definition SASL_CB_USER :: int where "SASL_CB_USER = 16385"
definition SASL_CB_AUTHNAME :: int where "SASL_CB_AUTHNAME = 16386"
definition SASL_CB_LANGUAGE :: int where "SASL_CB_LANGUAGE = 16387"
definition SASL_CB_PASS :: int where "SASL_CB_PASS = 16388"

text \<open>
  A call either returns or reads through a null pointer, which C leaves undefined.
\<close>

datatype 'a c_result = Null_dereference | Returns 'a

text \<open>
  \<^verbatim>\<open>ldap_pvt_sasl_getsimple\<close>. \<open>ctx\<close> is the string \<^verbatim>\<open>context\<close> points to (\<open>None\<close>
  for \<^verbatim>\<open>NULL\<close>); \<open>result_ok\<close> and \<open>len_ok\<close> say that the two output pointers are not
  \<^verbatim>\<open>NULL\<close>. The result is the return code, what is stored in \<^verbatim>\<open>*result\<close> (if
  anything: a string or \<^verbatim>\<open>NULL\<close>) and what is stored in \<^verbatim>\<open>*len\<close> (if anything).
\<close>

definition ldap_pvt_sasl_getsimple ::
  "string option \<Rightarrow> int \<Rightarrow> bool \<Rightarrow> bool \<Rightarrow> int \<times> string option option \<times> nat option" where
  "ldap_pvt_sasl_getsimple ctx ident result_ok len_ok =
     (if \<not> result_ok then (SASL_BADPARAM, None, None)
      else if ident = SASL_CB_USER \<or> ident = SASL_CB_AUTHNAME
      then (SASL_OK, Some ctx,
            if len_ok then Some (case ctx of None \<Rightarrow> 0 | Some v \<Rightarrow> length v) else None)
      else if ident = SASL_CB_LANGUAGE
      then (SASL_OK, Some None, if len_ok then Some 0 else None)
      else (SASL_BADPARAM, None, None))"

text \<open>A \<^verbatim>\<open>sasl_secret_t\<close>: the length field and the bytes allocated after it.\<close>

record sasl_secret =
  secret_len :: nat
  secret_data :: "byte list"

text \<open>
  \<^verbatim>\<open>ldap_pvt_sasl_getsecret\<close>. \<open>conn_ok\<close> and \<open>psecret_ok\<close> say that \<^verbatim>\<open>conn\<close> and
  \<^verbatim>\<open>psecret\<close> are not \<^verbatim>\<open>NULL\<close>; \<open>passphrase\<close> is the \<^verbatim>\<open>struct berval\<close> that
  \<^verbatim>\<open>context\<close> points to (\<open>None\<close> for \<^verbatim>\<open>NULL\<close>); \<open>malloc_ok\<close> says whether
  \<^verbatim>\<open>LDAP_MALLOC\<close> succeeds. The result is the return code and the secret stored in
  \<^verbatim>\<open>*psecret\<close> (if any). The statement \<^verbatim>\<open>(*psecret)->len = passphrase->bv_len\<close> reads
  through \<^verbatim>\<open>passphrase\<close> without the test that the statements before and after it
  make.
\<close>

definition ldap_pvt_sasl_getsecret ::
  "bool \<Rightarrow> byte list option \<Rightarrow> int \<Rightarrow> bool \<Rightarrow> bool \<Rightarrow> (int \<times> sasl_secret option) c_result" where
  "ldap_pvt_sasl_getsecret conn_ok passphrase ident psecret_ok malloc_ok =
     (if \<not> conn_ok \<or> \<not> psecret_ok \<or> ident \<noteq> SASL_CB_PASS then Returns (SASL_BADPARAM, None)
      else
        (let len = (case passphrase of None \<Rightarrow> 0 | Some bv \<Rightarrow> length bv) in
         if \<not> malloc_ok then Returns (SASL_NOMEM, None)
         else
           (case passphrase of
              None \<Rightarrow> Null_dereference
            | Some bv \<Rightarrow>
                Returns (SASL_OK, Some \<lparr>secret_len = length bv, secret_data = take len bv\<rparr>))))"

section \<open>Data for concrete runs\<close>

text \<open>
  A provider that rejects whatever it is given, on a little-endian host whose
  allocator always succeeds, and the private data of a descriptor whose three buffers
  are empty, the staging buffer having a block of 24 bytes.
\<close>

definition reject_env :: "nat sasl_env" where
  "reject_env = \<lparr>host_order = Little_Endian, grow_buffer = ber_pvt_sb_grow_buffer True,
     sasl_decode = (\<lambda>c bs. (SASL_FAIL, [], c)),
     sasl_encode = (\<lambda>c bs. (SASL_FAIL, [], c))\<rparr>"

definition fresh_data :: "nat sb_sasl_data" where
  "fresh_data = \<lparr>sasl_context = 0,
     sec_buf_in = \<lparr>buf_base = replicate 24 0, buf_ptr = 0, buf_end = 0, buf_size = 24\<rparr>,
     buf_in = ber_pvt_sb_buf_init, buf_out = ber_pvt_sb_buf_init\<rparr>"


text \<open>
  A connection of protocol version 3 on a stream with one transport layer, and the
  answers of a negotiation of three rounds: the provider continues on the start and on
  the first step and succeeds on the second; requests are sent under their message id;
  the server reports a bind in progress for the message ids 1 and 2 and success for
  every other; and the strength factor negotiated is 56.
\<close>

definition sample_ld :: "((nat option) Sockbuf, nat) LDAP" where
  "sample_ld = \<lparr>ld_version = 3, ld_errno = 0, ld_error = None, ld_matched = None,
     ld_msgid = 0, ld_defbinddn = None,
     ld_sasl_context = None, ld_sb = [(20, other_sockbuf_io 0, None)],
     ldo_sasl_minssf = 0, ldo_sasl_maxssf = 256\<rparr>"

definition bind_response :: "int \<Rightarrow> byte list \<Rightarrow> LDAPMessage" where
  "bind_response code creds =
     \<lparr>lm_msgtype = LDAP_RES_BIND,
      lm_ber = \<lparr>ber_result = Some (code, [], []), ber_referral = None,
                ber_creds = Some (Some creds)\<rparr>\<rparr>"

definition three_round_env :: "((nat option) Sockbuf, nat) bind_env" where
  "three_round_env = \<lparr>be_fd_valid = True, be_open_defconn = (0, 0),
     be_host = Some ''ldap.example.com'', be_client_new = (SASL_OK, Some 1),
     be_getpeername = 0, be_getsockname = 0,
     be_client_start = (SASL_CONTINUE, Some [1], ''DIGEST-MD5''),
     be_client_step = [(SASL_CONTINUE, Some [2]), (SASL_OK, Some [3])],
     be_send = \<lparr>se_alloc_ber = True, se_printf = 0, se_put_controls = (LDAP_SUCCESS, 0),
                se_printf_close = 0,
                se_send = (\<lambda>req. case req of Bind_request msgid v dn auth \<Rightarrow> (msgid, 0))\<rparr>,
     be_result = (\<lambda>msgid. (LDAP_RES_BIND, 0,
                   Some (if msgid = 1 then bind_response LDAP_SASL_BIND_IN_PROGRESS [10]
                         else if msgid = 2 then bind_response LDAP_SASL_BIND_IN_PROGRESS [11]
                         else bind_response LDAP_SUCCESS [12]))),
     be_ber_dup = True,
     be_result2error = (\<lambda>res. case res of
                          None \<Rightarrow> (LDAP_PARAM_ERROR, LDAP_PARAM_ERROR)
                        | Some msg \<Rightarrow>
                            (case ber_result (lm_ber msg) of
                               None \<Rightarrow> (LDAP_DECODING_ERROR, LDAP_DECODING_ERROR)
                             | Some (c, m, d) \<Rightarrow> (c, c))),
     be_ssf = (SASL_OK, Some 56),
     be_has_io = ber_sockbuf_has_io, be_add_io = ber_sockbuf_add_io\<rparr>"

definition sample_send_env :: send_env where
  "sample_send_env = \<lparr>se_alloc_ber = True, se_printf = 0, se_put_controls = (LDAP_SUCCESS, 0),
     se_printf_close = 0, se_send = (\<lambda>req. (1, 0))\<rparr>"

section \<open>Facts about the machine model\<close>

lemma byte_lt: "unat (b :: byte) < 256"
  using unsigned_less [of b, where ?'a = nat] by simp

lemma horner_lt:
  fixes a b c d :: nat
  assumes "a < 256" "b < 256" "c < 256" "d < 256"
  shows "a + 256 * (b + 256 * (c + 256 * d)) < 4294967296"
proof -
  have "a \<le> 255" "b \<le> 255" "c \<le> 255" "d \<le> 255"
    using assms by simp_all
  then have "a + 256 * (b + 256 * (c + 256 * d))
             \<le> 255 + 256 * (255 + 256 * (255 + 256 * 255))"
    by (intro add_mono mult_le_mono2)
  then show ?thesis by simp
qed

lemma be32_lt: "be32 buf < 4294967296"
  unfolding be32_def by (intro horner_lt byte_lt)

lemma div_mod_256:
  fixes a q :: nat
  assumes "a < 256"
  shows "(a + 256 * q) mod 256 = a" and "(a + 256 * q) div 256 = q"
  using assms by simp_all

lemma bswap32_horner:
  fixes a b c d :: nat
  assumes "a < 256" "b < 256" "c < 256" "d < 256"
  shows "bswap32 (a + 256 * (b + 256 * (c + 256 * d))) = d + 256 * (c + 256 * (b + 256 * a))"
  unfolding bswap32_def by (simp only: div_mod_256 assms mod_less)

lemma unat_of_nat32: "n < 4294967296 \<Longrightarrow> unat (word_of_nat n :: 32 word) = n"
  by (simp add: unat_of_nat)

text \<open>
  Whatever the host's byte order, \<^verbatim>\<open>ntohl\<close> of the loaded \<^verbatim>\<open>long\<close> is the number
  the four bytes denote in network order.
\<close>

lemma ntohl_load_long: "unat (ntohl bo (load_long bo buf)) = be32 buf"
proof (cases bo)
  case Little_Endian
  define n where "n = unat (buf ! 0) + 256 * (unat (buf ! 1)
                      + 256 * (unat (buf ! 2) + 256 * unat (buf ! 3)))"
  have lt: "n < 4294967296"
    unfolding n_def by (intro horner_lt byte_lt)
  have ld: "load_long Little_Endian buf = word_of_nat n"
    unfolding load_long_def n_def by (simp only: byte_order.case)
  have sw: "bswap32 n = be32 buf"
    unfolding n_def be32_def by (rule bswap32_horner; rule byte_lt)
  have "ntohl Little_Endian (load_long Little_Endian buf)
        = word_of_nat (bswap32 (unat (word_of_nat n :: 32 word)))"
    unfolding ntohl_def ld by (simp only: byte_order.case)
  also have "\<dots> = word_of_nat (be32 buf)"
    by (simp only: unat_of_nat32 [OF lt] sw)
  finally show ?thesis
    by (simp only: Little_Endian unat_of_nat32 [OF be32_lt])
next
  case Big_Endian
  have "ntohl Big_Endian (load_long Big_Endian buf) = word_of_nat (be32 buf)"
    unfolding ntohl_def load_long_def be32_def by (simp only: byte_order.case)
  then show ?thesis
    by (simp only: Big_Endian unat_of_nat32 [OF be32_lt])
qed

lemma sb_sasl_pkt_length_unat:
  "unat (sb_sasl_pkt_length bo buf) = (if be32 buf \<le> 65536 then be32 buf + 4 else 20)"
proof (cases "be32 buf \<le> 65536")
  case True
  then have "unat (ntohl bo (load_long bo buf)) + 4 < 2 ^ LENGTH(32)"
    by (simp add: ntohl_load_long)
  then have "unat (ntohl bo (load_long bo buf) + 4) = unat (ntohl bo (load_long bo buf)) + 4"
    by (simp add: unat_word_ariths)
  with True show ?thesis
    by (simp add: sb_sasl_pkt_length_def Let_def ntohl_load_long MAX_BUFF_SIZE_def)
next
  case False
  then show ?thesis
    by (simp add: sb_sasl_pkt_length_def Let_def ntohl_load_long MAX_BUFF_SIZE_def)
qed

section \<open>The packet length\<close>

text \<open>
  Claim C1. For every 4-byte header (followed by whatever the buffer holds next) and
  either byte order of the host, \<^verbatim>\<open>sb_sasl_pkt_length\<close> returns the big-endian
  32-bit number of the header plus 4 when that number is at most 65536, and
  \<open>16 + 4 = 20\<close> when it exceeds 65536. The function has a length as its result for
  every header: there is no error result, and the 32-bit addition never wraps, the
  result lying between 4 and 65540.
\<close>

theorem sb_sasl_pkt_length_spec:
  "unat (sb_sasl_pkt_length bo (b0 # b1 # b2 # b3 # rest))
     = (if be32 [b0, b1, b2, b3] \<le> 65536 then be32 [b0, b1, b2, b3] + 4 else 20)
   \<and> 4 \<le> unat (sb_sasl_pkt_length bo (b0 # b1 # b2 # b3 # rest))
   \<and> unat (sb_sasl_pkt_length bo (b0 # b1 # b2 # b3 # rest)) \<le> 65540"
proof -
  have "be32 (b0 # b1 # b2 # b3 # rest) = be32 [b0, b1, b2, b3]"
    by (simp add: be32_def)
  then show ?thesis
    using be32_lt [of "[b0, b1, b2, b3]"]
    by (simp only: sb_sasl_pkt_length_unat split: if_split) simp
qed

theorem sb_sasl_pkt_length_spec_witness:
  "unat (sb_sasl_pkt_length Little_Endian [0, 1, 0, 0, 7]) = 65540
   \<and> unat (sb_sasl_pkt_length Big_Endian [0, 1, 0, 1]) = 20
   \<and> unat (sb_sasl_pkt_length Little_Endian [0, 152, 150, 128]) = 20"
  using sb_sasl_pkt_length_spec [of Little_Endian 0 1 0 0 "[7]"]
        sb_sasl_pkt_length_spec [of Big_Endian 0 1 0 1 "[]"]
        sb_sasl_pkt_length_spec [of Little_Endian 0 152 150 128 "[]"]
  by (simp add: be32_def)

section \<open>Dropping a consumed packet\<close>

lemma to_slen_id: "- 2147483648 \<le> i \<Longrightarrow> i < 2147483648 \<Longrightarrow> to_slen i = i"
  by (simp add: to_slen_def)

lemma to_len_id: "0 \<le> i \<Longrightarrow> i < 4294967296 \<Longrightarrow> to_len i = nat i"
  by (simp add: to_len_def)

lemma be32_cong: "xs ! 0 = ys ! 0 \<Longrightarrow> xs ! 1 = ys ! 1 \<Longrightarrow> xs ! 2 = ys ! 2 \<Longrightarrow> xs ! 3 = ys ! 3
  \<Longrightarrow> be32 xs = be32 ys"
  by (simp add: be32_def)

lemma be32_prefix: "4 \<le> length xs \<Longrightarrow> be32 (xs @ ys) = be32 xs"
  by (rule be32_cong) (auto simp: nth_append)

lemma be32_take: "4 \<le> n \<Longrightarrow> be32 (take n xs) = be32 xs"
  by (rule be32_cong) simp_all

lemma drop_packet_unfold:
  assumes consumed: "buf_end b \<le> buf_ptr b"
      and inside: "buf_ptr b \<le> length (buf_base b)"
      and small: "length (buf_base b) < 2147483648"
  shows "sb_sasl_drop_packet bo b =
     b\<lparr>buf_base := (if buf_end b < buf_ptr b
                      then take (buf_ptr b - buf_end b) (drop (buf_end b) (buf_base b))
                           @ drop (buf_ptr b - buf_end b) (buf_base b)
                      else buf_base b),
       buf_end := (if 4 \<le> buf_ptr b - buf_end b
                   then (if be32 (drop (buf_end b) (buf_base b)) \<le> 65536
                         then be32 (drop (buf_end b) (buf_base b)) + 4 else 20)
                   else 0),
       buf_ptr := buf_ptr b - buf_end b\<rparr>"
proof -
  define n where "n = buf_ptr b - buf_end b"
  define left where "left = take n (drop (buf_end b) (buf_base b))"
  have len: "to_slen (int (buf_ptr b) - int (buf_end b)) = int n"
    using assms by (simp add: to_slen_id n_def)
  have tl: "to_len (int n) = n"
    using assms by (simp add: to_len_id n_def)
  have ln: "length left = n"
    using assms by (simp add: n_def left_def)
  have mv: "memmove (buf_base b) 0 (buf_end b) (nat (int n)) = left @ drop n (buf_base b)"
    by (simp add: memmove_def store_def ln left_def [symmetric])
  have hd: "be32 (left @ drop n (buf_base b)) = be32 (drop (buf_end b) (buf_base b))"
    if "4 \<le> n"
    using that ln by (simp add: be32_prefix left_def be32_take)
  have eq: "sb_sasl_drop_packet bo b =
     b\<lparr>buf_base := (if 0 < n then left @ drop n (buf_base b) else buf_base b),
       buf_end := (if 4 \<le> n
                   then (if be32 (drop (buf_end b) (buf_base b)) \<le> 65536
                         then be32 (drop (buf_end b) (buf_base b)) + 4 else 20)
                   else 0),
       buf_ptr := n\<rparr>"
  proof (cases "4 \<le> n")
    case True
    then show ?thesis
      unfolding sb_sasl_drop_packet_def Let_def len tl mv
      by (simp add: sb_sasl_pkt_length_unat hd)
  next
    case False
    then show ?thesis
      unfolding sb_sasl_drop_packet_def Let_def len tl mv
      by simp
  qed
  have "(0 < n) = (buf_end b < buf_ptr b)"
    by (auto simp: n_def)
  with eq show ?thesis
    by (simp only: n_def left_def)
qed


text \<open>
  Claim C3, as stated, fails where it says that the bytes left over always belong to a
  packet that is not yet complete. Here the consumed packet of 4 bytes is followed by
  the 5 bytes of a whole second packet (the header \<open>00 00 00 01\<close> and one byte): after
  the drop the cursor stands at 5 and the frame end is 5, so the buffer is not empty
  and holds the next packet complete.
\<close>

theorem sb_sasl_drop_packet_complete_counterexample:
  "sb_sasl_drop_packet Little_Endian
     \<lparr>buf_base = [0, 0, 0, 0, 0, 0, 0, 1, 9], buf_ptr = 9, buf_end = 4, buf_size = 9\<rparr>
   = \<lparr>buf_base = [0, 0, 0, 1, 9, 0, 0, 1, 9], buf_ptr = 5, buf_end = 5, buf_size = 9\<rparr>"
  by (simp add: sb_sasl_drop_packet_def Let_def to_slen_def to_len_def memmove_def store_def
      sb_sasl_pkt_length_unat be32_def)

text \<open>
  Claim C3, amended. Let one packet be fully consumed in the staging buffer: the cursor
  \<^verbatim>\<open>buf_ptr\<close> stands at or past the packet end \<^verbatim>\<open>buf_end\<close> (and inside the block,
  whose size a \<^verbatim>\<open>ber_slen_t\<close> can hold). Then \<^verbatim>\<open>sb_sasl_drop_packet\<close> leaves
  the \<open>n = buf_ptr - buf_end\<close> bytes that stood beyond the packet at the start of the
  block and the rest of the block as it was; it sets \<^verbatim>\<open>buf_ptr\<close> to \<open>n\<close>, the
  number of bytes now buffered for the next packet; and it sets \<^verbatim>\<open>buf_end\<close> to the
  frame end that \<^verbatim>\<open>sb_sasl_pkt_length\<close> computes from the shifted header when
  \<open>n \<ge> 4\<close> and to 0 otherwise. So the buffer is either empty (both cursors 0, the block
  untouched) or holds exactly the \<open>n > 0\<close> leftover bytes as the beginning of the next
  packet, be that packet complete in them or not.
\<close>

theorem sb_sasl_drop_packet_spec:
  fixes b :: Sockbuf_Buf and bo :: byte_order
  defines "n \<equiv> buf_ptr b - buf_end b"
  defines "b' \<equiv> sb_sasl_drop_packet bo b"
  assumes consumed: "buf_end b \<le> buf_ptr b"
      and inside: "buf_ptr b \<le> length (buf_base b)"
      and small: "length (buf_base b) < 2147483648"
  shows "take n (buf_base b') = take n (drop (buf_end b) (buf_base b))
       \<and> drop n (buf_base b') = drop n (buf_base b)
       \<and> buf_size b' = buf_size b
       \<and> buf_ptr b' = n
       \<and> buf_end b' = (if 4 \<le> n then unat (sb_sasl_pkt_length bo (buf_base b')) else 0)
       \<and> buf_end b' = (if 4 \<le> n
                        then (if be32 (drop (buf_end b) (buf_base b)) \<le> 65536
                              then be32 (drop (buf_end b) (buf_base b)) + 4 else 20)
                        else 0)
       \<and> (if n = 0 then b' = b\<lparr>buf_end := 0, buf_ptr := 0\<rparr> else 0 < buf_ptr b')"
proof -
  define left where "left = take n (drop (buf_end b) (buf_base b))"
  have ln: "length left = n"
    using consumed inside by (simp add: n_def left_def)
  have u: "b' = b\<lparr>buf_base := (if buf_end b < buf_ptr b then left @ drop n (buf_base b)
                                 else buf_base b),
                   buf_end := (if 4 \<le> n
                               then (if be32 (drop (buf_end b) (buf_base b)) \<le> 65536
                                     then be32 (drop (buf_end b) (buf_base b)) + 4 else 20)
                               else 0),
                   buf_ptr := n\<rparr>"
    unfolding b'_def n_def left_def by (rule drop_packet_unfold [OF consumed inside small])
  have base: "buf_base b' = (if 0 < n then left @ drop n (buf_base b) else buf_base b)"
    using consumed by (simp add: u n_def)
  have hd: "be32 (buf_base b') = be32 (drop (buf_end b) (buf_base b))" if "4 \<le> n"
    using that ln by (simp add: base be32_prefix left_def be32_take)
  have 1: "take n (buf_base b') = take n (drop (buf_end b) (buf_base b))"
    using ln by (auto simp: base left_def [symmetric])
  have 2: "drop n (buf_base b') = drop n (buf_base b)"
    using ln by (simp add: base)
  have 3: "buf_size b' = buf_size b" "buf_ptr b' = n"
    by (simp_all add: u)
  have 5: "buf_end b' = (if 4 \<le> n
                        then (if be32 (drop (buf_end b) (buf_base b)) \<le> 65536
                              then be32 (drop (buf_end b) (buf_base b)) + 4 else 20)
                        else 0)"
    by (simp add: u)
  have 4: "buf_end b' = (if 4 \<le> n then unat (sb_sasl_pkt_length bo (buf_base b')) else 0)"
    using hd by (simp add: 5 sb_sasl_pkt_length_unat)
  have 6: "if n = 0 then b' = b\<lparr>buf_end := 0, buf_ptr := 0\<rparr> else 0 < buf_ptr b'"
    using consumed by (auto simp: u n_def)
  show ?thesis
    using 1 2 3 4 5 6 by blast
qed

theorem sb_sasl_drop_packet_spec_witness:
  "sb_sasl_drop_packet Little_Endian
     \<lparr>buf_base = [0, 0, 0, 0, 0, 0, 0, 2, 9], buf_ptr = 9, buf_end = 4, buf_size = 9\<rparr>
   = \<lparr>buf_base = [0, 0, 0, 2, 9, 0, 0, 2, 9], buf_ptr = 5, buf_end = 6, buf_size = 9\<rparr>"
proof -
  let ?b = "\<lparr>buf_base = [0, 0, 0, 0, 0, 0, 0, 2, 9 :: byte], buf_ptr = 9, buf_end = 4, buf_size = 9\<rparr>"
  let ?b' = "sb_sasl_drop_packet Little_Endian ?b"
  have "buf_end ?b \<le> buf_ptr ?b" "buf_ptr ?b \<le> length (buf_base ?b)"
    "length (buf_base ?b) < 2147483648"
    by simp_all
  from sb_sasl_drop_packet_spec [OF this, of Little_Endian]
  have "take 5 (buf_base ?b') = [0, 0, 0, 2, 9]" "drop 5 (buf_base ?b') = [0, 0, 2, 9]"
    "buf_size ?b' = 9" "buf_ptr ?b' = 5" "buf_end ?b' = 6"
    by (simp_all add: be32_def)
  moreover have "buf_base ?b' = take 5 (buf_base ?b') @ drop 5 (buf_base ?b')"
    by simp
  ultimately have "buf_base ?b' = [0, 0, 0, 2, 9, 0, 0, 2, 9]" "buf_size ?b' = 9"
    "buf_ptr ?b' = 5" "buf_end ?b' = 6"
    by simp_all
  then show ?thesis
    by (cases ?b') simp
qed

section \<open>The two loops of the read operation\<close>

text \<open>
  One rule for each loop, in the manner of a Hoare rule for \<^verbatim>\<open>while\<close>: \<open>I\<close> is an
  invariant of the loop state and \<open>Q\<close> a property of the way the loop ends. The
  induction is on the size of what the layer below still has to answer.
\<close>

lemma sb_sasl_read_header_rule:
  assumes inv: "I b err tr"
      and blocked: "\<And>b err tr. I b err tr \<Longrightarrow> buf_ptr b < 4 \<Longrightarrow>
             read_next tr (4 - buf_ptr b) = None \<Longrightarrow> Q (Blocked (b, err, tr))"
      and finish: "\<And>b err tr. I b err tr \<Longrightarrow> \<not> buf_ptr b < 4 \<Longrightarrow> Q (Proceed (b, err, tr))"
      and stop: "\<And>b err tr ret bs eo tr'.
             I b err tr \<Longrightarrow> buf_ptr b < 4 \<Longrightarrow>
             read_next tr (4 - buf_ptr b) = Some (ret, bs, eo, tr') \<Longrightarrow>
             \<not> (ret < 0 \<and> (case eo of None \<Rightarrow> err | Some e \<Rightarrow> e) = EINTR) \<Longrightarrow> ret \<le> 0 \<Longrightarrow>
             Q (Returned ret (b\<lparr>buf_base := store (buf_base b) 0 bs\<rparr>,
                              (case eo of None \<Rightarrow> err | Some e \<Rightarrow> e), tr'))"
      and retry: "\<And>b err tr ret bs eo tr'.
             I b err tr \<Longrightarrow> buf_ptr b < 4 \<Longrightarrow>
             read_next tr (4 - buf_ptr b) = Some (ret, bs, eo, tr') \<Longrightarrow>
             ret < 0 \<Longrightarrow> (case eo of None \<Rightarrow> err | Some e \<Rightarrow> e) = EINTR \<Longrightarrow>
             I (b\<lparr>buf_base := store (buf_base b) 0 bs\<rparr>) EINTR tr'"
      and more: "\<And>b err tr ret bs eo tr'.
             I b err tr \<Longrightarrow> buf_ptr b < 4 \<Longrightarrow>
             read_next tr (4 - buf_ptr b) = Some (ret, bs, eo, tr') \<Longrightarrow> 0 < ret \<Longrightarrow>
             I (b\<lparr>buf_base := store (buf_base b) 0 bs, buf_ptr := buf_ptr b + nat ret\<rparr>)
               (case eo of None \<Rightarrow> err | Some e \<Rightarrow> e) tr'"
  shows "Q (sb_sasl_read_header b err tr)"
  using inv
proof (induction "tr_size tr" arbitrary: b err tr rule: less_induct)
  case less
  show ?case
  proof (cases "buf_ptr b < 4")
    case False
    then have "sb_sasl_read_header b err tr = Proceed (b, err, tr)"
      by (simp add: sb_sasl_read_header.simps [of b err tr])
    with finish [OF less.prems False] show ?thesis by simp
  next
    case lt: True
    show ?thesis
    proof (cases "read_next tr (4 - buf_ptr b)")
      case None
      with lt have "sb_sasl_read_header b err tr = Blocked (b, err, tr)"
        by (simp add: sb_sasl_read_header.simps [of b err tr])
      with blocked [OF less.prems lt None] show ?thesis by simp
    next
      case (Some x)
      obtain ret bs eo tr1 where x: "x = (ret, bs, eo, tr1)"
        by (cases x) auto
      define b1 where "b1 = b\<lparr>buf_base := store (buf_base b) 0 bs\<rparr>"
      define e1 where "e1 = (case eo of None \<Rightarrow> err | Some e \<Rightarrow> e)"
      have rn: "read_next tr (4 - buf_ptr b) = Some (ret, bs, eo, tr1)"
        using Some x by simp
      have smaller: "tr_size tr1 < tr_size tr"
        using read_next_smaller [OF rn] lt by simp
      have unf: "sb_sasl_read_header b err tr =
          (if ret < 0 \<and> e1 = EINTR then sb_sasl_read_header b1 e1 tr1
           else if ret \<le> 0 then Returned ret (b1, e1, tr1)
           else sb_sasl_read_header (b1\<lparr>buf_ptr := buf_ptr b1 + nat ret\<rparr>) e1 tr1)"
        using lt rn by (simp add: sb_sasl_read_header.simps [of b err tr] b1_def e1_def Let_def)
      consider (intr) "ret < 0" "e1 = EINTR"
        | (halt) "\<not> (ret < 0 \<and> e1 = EINTR)" "ret \<le> 0"
        | (data) "0 < ret"
        by linarith
      then show ?thesis
      proof cases
        case intr
        have "I b1 EINTR tr1"
          unfolding b1_def using retry [OF less.prems lt rn] intr by (simp add: e1_def)
        then have "Q (sb_sasl_read_header b1 e1 tr1)"
          using less.hyps [OF smaller] intr by simp
        with intr show ?thesis by (simp add: unf)
      next
        case halt
        have "Q (Returned ret (b1, e1, tr1))"
          unfolding b1_def e1_def using stop [OF less.prems lt rn] halt by (simp add: e1_def)
        then show ?thesis
          by (simp only: unf if_not_P [OF halt(1)] if_P [OF halt(2)])
      next
        case data
        have "I (b1\<lparr>buf_ptr := buf_ptr b1 + nat ret\<rparr>) e1 tr1"
          unfolding b1_def e1_def using more [OF less.prems lt rn data] by simp
        then have "Q (sb_sasl_read_header (b1\<lparr>buf_ptr := buf_ptr b1 + nat ret\<rparr>) e1 tr1)"
          using less.hyps [OF smaller] by simp
        with data show ?thesis by (simp add: unf)
      qed
    qed
  qed
qed

lemma sb_sasl_read_body_rule:
  assumes inv: "I b err tr"
      and blocked: "\<And>b err tr. I b err tr \<Longrightarrow> buf_ptr b < buf_end b \<Longrightarrow>
             read_next tr (buf_end b - buf_ptr b) = None \<Longrightarrow> Q (Blocked (b, err, tr))"
      and finish: "\<And>b err tr. I b err tr \<Longrightarrow> \<not> buf_ptr b < buf_end b \<Longrightarrow> Q (Proceed (b, err, tr))"
      and stop: "\<And>b err tr ret bs eo tr'.
             I b err tr \<Longrightarrow> buf_ptr b < buf_end b \<Longrightarrow>
             read_next tr (buf_end b - buf_ptr b) = Some (ret, bs, eo, tr') \<Longrightarrow>
             \<not> (ret < 0 \<and> (case eo of None \<Rightarrow> err | Some e \<Rightarrow> e) = EINTR) \<Longrightarrow> ret \<le> 0 \<Longrightarrow>
             Q (Returned ret (b\<lparr>buf_base := store (buf_base b) (buf_ptr b) bs\<rparr>,
                              (case eo of None \<Rightarrow> err | Some e \<Rightarrow> e), tr'))"
      and retry: "\<And>b err tr ret bs eo tr'.
             I b err tr \<Longrightarrow> buf_ptr b < buf_end b \<Longrightarrow>
             read_next tr (buf_end b - buf_ptr b) = Some (ret, bs, eo, tr') \<Longrightarrow>
             ret < 0 \<Longrightarrow> (case eo of None \<Rightarrow> err | Some e \<Rightarrow> e) = EINTR \<Longrightarrow>
             I (b\<lparr>buf_base := store (buf_base b) (buf_ptr b) bs\<rparr>) EINTR tr'"
      and more: "\<And>b err tr ret bs eo tr'.
             I b err tr \<Longrightarrow> buf_ptr b < buf_end b \<Longrightarrow>
             read_next tr (buf_end b - buf_ptr b) = Some (ret, bs, eo, tr') \<Longrightarrow> 0 < ret \<Longrightarrow>
             I (b\<lparr>buf_base := store (buf_base b) (buf_ptr b) bs, buf_ptr := buf_ptr b + nat ret\<rparr>)
               (case eo of None \<Rightarrow> err | Some e \<Rightarrow> e) tr'"
  shows "Q (sb_sasl_read_body b err tr)"
  using inv
proof (induction "tr_size tr" arbitrary: b err tr rule: less_induct)
  case less
  show ?case
  proof (cases "buf_ptr b < buf_end b")
    case False
    then have "sb_sasl_read_body b err tr = Proceed (b, err, tr)"
      by (simp add: sb_sasl_read_body.simps [of b err tr])
    with finish [OF less.prems False] show ?thesis by simp
  next
    case lt: True
    show ?thesis
    proof (cases "read_next tr (buf_end b - buf_ptr b)")
      case None
      with lt have "sb_sasl_read_body b err tr = Blocked (b, err, tr)"
        by (simp add: sb_sasl_read_body.simps [of b err tr])
      with blocked [OF less.prems lt None] show ?thesis by simp
    next
      case (Some x)
      obtain ret bs eo tr1 where x: "x = (ret, bs, eo, tr1)"
        by (cases x) auto
      define b1 where "b1 = b\<lparr>buf_base := store (buf_base b) (buf_ptr b) bs\<rparr>"
      define e1 where "e1 = (case eo of None \<Rightarrow> err | Some e \<Rightarrow> e)"
      have rn: "read_next tr (buf_end b - buf_ptr b) = Some (ret, bs, eo, tr1)"
        using Some x by simp
      have smaller: "tr_size tr1 < tr_size tr"
        using read_next_smaller [OF rn] lt by simp
      have unf: "sb_sasl_read_body b err tr =
          (if ret < 0 \<and> e1 = EINTR then sb_sasl_read_body b1 e1 tr1
           else if ret \<le> 0 then Returned ret (b1, e1, tr1)
           else sb_sasl_read_body (b1\<lparr>buf_ptr := buf_ptr b1 + nat ret\<rparr>) e1 tr1)"
        using lt rn by (simp add: sb_sasl_read_body.simps [of b err tr] b1_def e1_def Let_def)
      consider (intr) "ret < 0" "e1 = EINTR"
        | (halt) "\<not> (ret < 0 \<and> e1 = EINTR)" "ret \<le> 0"
        | (data) "0 < ret"
        by linarith
      then show ?thesis
      proof cases
        case intr
        have "I b1 EINTR tr1"
          unfolding b1_def using retry [OF less.prems lt rn] intr by (simp add: e1_def)
        then have "Q (sb_sasl_read_body b1 e1 tr1)"
          using less.hyps [OF smaller] intr by simp
        with intr show ?thesis by (simp add: unf)
      next
        case halt
        have "Q (Returned ret (b1, e1, tr1))"
          unfolding b1_def e1_def using stop [OF less.prems lt rn] halt by (simp add: e1_def)
        then show ?thesis
          by (simp only: unf if_not_P [OF halt(1)] if_P [OF halt(2)])
      next
        case data
        have "I (b1\<lparr>buf_ptr := buf_ptr b1 + nat ret\<rparr>) e1 tr1"
          unfolding b1_def e1_def using more [OF less.prems lt rn data] by simp
        then have "Q (sb_sasl_read_body (b1\<lparr>buf_ptr := buf_ptr b1 + nat ret\<rparr>) e1 tr1)"
          using less.hyps [OF smaller] by simp
        with data show ?thesis by (simp add: unf)
      qed
    qed
  qed
qed


lemma read_body_Proceed:
  assumes "sb_sasl_read_body b err tr = Proceed (b', e', tr')"
  shows "buf_end b' \<le> buf_ptr b' \<and> buf_size b' = buf_size b \<and> buf_end b' = buf_end b"
proof -
  let ?Q = "\<lambda>res. \<forall>b' e' tr'. res = Proceed (b', e', tr') \<longrightarrow>
      buf_end b' \<le> buf_ptr b' \<and> buf_size b' = buf_size b \<and> buf_end b' = buf_end b"
  have "?Q (sb_sasl_read_body b err tr)"
    by (rule sb_sasl_read_body_rule
          [where I = "\<lambda>b1 e1 tr1. buf_size b1 = buf_size b \<and> buf_end b1 = buf_end b"])
       simp_all
  with assms show ?thesis by blast
qed

lemma store_nil: "store mem off [] = mem"
  by (simp add: store_def)

lemma read_next_None: "read_next tr n = None \<longleftrightarrow> tr = []"
  by (cases "(tr, n)" rule: read_next.cases) auto

lemma read_next_append:
  "read_next tr n = Some (r, bs, eo, tr1) \<Longrightarrow> read_next (tr @ ext) n = Some (r, bs, eo, tr1 @ ext)"
  by (cases "(tr, n)" rule: read_next.cases) (auto split: if_splits)

lemma errno_after_read_next:
  "read_next tr n = Some (r, bs, eo, tr1)
   \<Longrightarrow> errno_after (case eo of None \<Rightarrow> e | Some x \<Rightarrow> x) tr1 = errno_after e tr"
  by (cases "(tr, n)" rule: read_next.cases) (auto split: if_splits)

lemma read_header_step:
  assumes "buf_ptr b < 4" and "read_next tr (4 - buf_ptr b) = Some (ret, bs, eo, tr1)"
  shows "sb_sasl_read_header b err (tr @ ext) =
          (if ret < 0 \<and> (case eo of None \<Rightarrow> err | Some e \<Rightarrow> e) = EINTR
           then sb_sasl_read_header (b\<lparr>buf_base := store (buf_base b) 0 bs\<rparr>)
                  (case eo of None \<Rightarrow> err | Some e \<Rightarrow> e) (tr1 @ ext)
           else if ret \<le> 0
           then Returned ret (b\<lparr>buf_base := store (buf_base b) 0 bs\<rparr>,
                              (case eo of None \<Rightarrow> err | Some e \<Rightarrow> e), tr1 @ ext)
           else sb_sasl_read_header
                  (b\<lparr>buf_base := store (buf_base b) 0 bs, buf_ptr := buf_ptr b + nat ret\<rparr>)
                  (case eo of None \<Rightarrow> err | Some e \<Rightarrow> e) (tr1 @ ext))"
  using assms(1) read_next_append [OF assms(2), of ext]
  by (simp add: sb_sasl_read_header.simps [of b err "tr @ ext"] Let_def)

lemma read_body_step:
  assumes "buf_ptr b < buf_end b" and "read_next tr (buf_end b - buf_ptr b) = Some (ret, bs, eo, tr1)"
  shows "sb_sasl_read_body b err (tr @ ext) =
          (if ret < 0 \<and> (case eo of None \<Rightarrow> err | Some e \<Rightarrow> e) = EINTR
           then sb_sasl_read_body (b\<lparr>buf_base := store (buf_base b) (buf_ptr b) bs\<rparr>)
                  (case eo of None \<Rightarrow> err | Some e \<Rightarrow> e) (tr1 @ ext)
           else if ret \<le> 0
           then Returned ret (b\<lparr>buf_base := store (buf_base b) (buf_ptr b) bs\<rparr>,
                              (case eo of None \<Rightarrow> err | Some e \<Rightarrow> e), tr1 @ ext)
           else sb_sasl_read_body
                  (b\<lparr>buf_base := store (buf_base b) (buf_ptr b) bs, buf_ptr := buf_ptr b + nat ret\<rparr>)
                  (case eo of None \<Rightarrow> err | Some e \<Rightarrow> e) (tr1 @ ext))"
  using assms(1) read_next_append [OF assms(2), of ext]
  by (simp add: sb_sasl_read_body.simps [of b err "tr @ ext"] Let_def)

lemma read_header_append:
  "(\<forall>b' e' tr'. sb_sasl_read_header b e pre = Blocked (b', e', tr') \<longrightarrow>
       tr' = [] \<and> e' = errno_after e pre \<and> buf_ptr b' < 4
       \<and> sb_sasl_read_header b e (pre @ ext) = sb_sasl_read_header b' e' ext)
   \<and> (\<forall>b' e' tr'. sb_sasl_read_header b e pre = Proceed (b', e', tr') \<longrightarrow>
       errno_after e' tr' = errno_after e pre
       \<and> sb_sasl_read_header b e (pre @ ext) = Proceed (b', e', tr' @ ext))"
proof -
  let ?I = "\<lambda>b1 e1 tr1. errno_after e1 tr1 = errno_after e pre
                  \<and> sb_sasl_read_header b e (pre @ ext) = sb_sasl_read_header b1 e1 (tr1 @ ext)"
  let ?Q = "\<lambda>res. (\<forall>b' e' tr'. res = Blocked (b', e', tr') \<longrightarrow>
       tr' = [] \<and> e' = errno_after e pre \<and> buf_ptr b' < 4
       \<and> sb_sasl_read_header b e (pre @ ext) = sb_sasl_read_header b' e' ext)
   \<and> (\<forall>b' e' tr'. res = Proceed (b', e', tr') \<longrightarrow>
       errno_after e' tr' = errno_after e pre
       \<and> sb_sasl_read_header b e (pre @ ext) = Proceed (b', e', tr' @ ext))"
  have "?Q (sb_sasl_read_header b e pre)"
  proof (rule sb_sasl_read_header_rule [where I = ?I and Q = ?Q])
    show "?I b e pre"
      by simp
  next
    fix b1 e1 tr1
    assume "?I b1 e1 tr1" and "buf_ptr b1 < 4" and "read_next tr1 (4 - buf_ptr b1) = None"
    then show "?Q (Blocked (b1, e1, tr1))"
      by (auto simp: read_next_None)
  next
    fix b1 e1 tr1
    assume "?I b1 e1 tr1" and "\<not> buf_ptr b1 < 4"
    then show "?Q (Proceed (b1, e1, tr1))"
      by (simp add: sb_sasl_read_header.simps [of b1 e1 "tr1 @ ext"])
  next
    fix b1 e1 tr1 ret bs eo tr2
    assume "?I b1 e1 tr1" "buf_ptr b1 < 4"
      "read_next tr1 (4 - buf_ptr b1) = Some (ret, bs, eo, tr2)"
      "\<not> (ret < 0 \<and> (case eo of None \<Rightarrow> e1 | Some e \<Rightarrow> e) = EINTR)" "ret \<le> 0"
    show "?Q (Returned ret (b1\<lparr>buf_base := store (buf_base b1) (0) bs\<rparr>,
                              (case eo of None \<Rightarrow> e1 | Some e \<Rightarrow> e), tr2))"
      by simp
  next
    fix b1 e1 tr1 ret bs eo tr2
    assume I: "?I b1 e1 tr1" and lt: "buf_ptr b1 < 4"
      and rn: "read_next tr1 (4 - buf_ptr b1) = Some (ret, bs, eo, tr2)"
      and "ret < 0" "(case eo of None \<Rightarrow> e1 | Some e \<Rightarrow> e) = EINTR"
    then show "?I (b1\<lparr>buf_base := store (buf_base b1) (0) bs\<rparr>) EINTR tr2"
      using errno_after_read_next [OF rn, of e1] read_header_step [OF lt rn, of e1 ext]
      by simp
  next
    fix b1 e1 tr1 ret bs eo tr2
    assume I: "?I b1 e1 tr1" and lt: "buf_ptr b1 < 4"
      and rn: "read_next tr1 (4 - buf_ptr b1) = Some (ret, bs, eo, tr2)"
      and "0 < ret"
    then show "?I (b1\<lparr>buf_base := store (buf_base b1) (0) bs,
                     buf_ptr := buf_ptr b1 + nat ret\<rparr>)
                 (case eo of None \<Rightarrow> e1 | Some e \<Rightarrow> e) tr2"
      using errno_after_read_next [OF rn, of e1] read_header_step [OF lt rn, of e1 ext]
      by simp
  qed
  then show ?thesis .
qed

lemma read_body_append:
  "(\<forall>b' e' tr'. sb_sasl_read_body b e pre = Blocked (b', e', tr') \<longrightarrow>
       tr' = [] \<and> e' = errno_after e pre \<and> buf_ptr b' < buf_end b'
       \<and> sb_sasl_read_body b e (pre @ ext) = sb_sasl_read_body b' e' ext)
   \<and> (\<forall>b' e' tr'. sb_sasl_read_body b e pre = Proceed (b', e', tr') \<longrightarrow>
       errno_after e' tr' = errno_after e pre
       \<and> sb_sasl_read_body b e (pre @ ext) = Proceed (b', e', tr' @ ext))"
proof -
  let ?I = "\<lambda>b1 e1 tr1. errno_after e1 tr1 = errno_after e pre
                  \<and> sb_sasl_read_body b e (pre @ ext) = sb_sasl_read_body b1 e1 (tr1 @ ext)"
  let ?Q = "\<lambda>res. (\<forall>b' e' tr'. res = Blocked (b', e', tr') \<longrightarrow>
       tr' = [] \<and> e' = errno_after e pre \<and> buf_ptr b' < buf_end b'
       \<and> sb_sasl_read_body b e (pre @ ext) = sb_sasl_read_body b' e' ext)
   \<and> (\<forall>b' e' tr'. res = Proceed (b', e', tr') \<longrightarrow>
       errno_after e' tr' = errno_after e pre
       \<and> sb_sasl_read_body b e (pre @ ext) = Proceed (b', e', tr' @ ext))"
  have "?Q (sb_sasl_read_body b e pre)"
  proof (rule sb_sasl_read_body_rule [where I = ?I and Q = ?Q])
    show "?I b e pre"
      by simp
  next
    fix b1 e1 tr1
    assume "?I b1 e1 tr1" and "buf_ptr b1 < buf_end b1" and "read_next tr1 (buf_end b1 - buf_ptr b1) = None"
    then show "?Q (Blocked (b1, e1, tr1))"
      by (auto simp: read_next_None)
  next
    fix b1 e1 tr1
    assume "?I b1 e1 tr1" and "\<not> buf_ptr b1 < buf_end b1"
    then show "?Q (Proceed (b1, e1, tr1))"
      by (simp add: sb_sasl_read_body.simps [of b1 e1 "tr1 @ ext"])
  next
    fix b1 e1 tr1 ret bs eo tr2
    assume "?I b1 e1 tr1" "buf_ptr b1 < buf_end b1"
      "read_next tr1 (buf_end b1 - buf_ptr b1) = Some (ret, bs, eo, tr2)"
      "\<not> (ret < 0 \<and> (case eo of None \<Rightarrow> e1 | Some e \<Rightarrow> e) = EINTR)" "ret \<le> 0"
    show "?Q (Returned ret (b1\<lparr>buf_base := store (buf_base b1) (buf_ptr b1) bs\<rparr>,
                              (case eo of None \<Rightarrow> e1 | Some e \<Rightarrow> e), tr2))"
      by simp
  next
    fix b1 e1 tr1 ret bs eo tr2
    assume I: "?I b1 e1 tr1" and lt: "buf_ptr b1 < buf_end b1"
      and rn: "read_next tr1 (buf_end b1 - buf_ptr b1) = Some (ret, bs, eo, tr2)"
      and "ret < 0" "(case eo of None \<Rightarrow> e1 | Some e \<Rightarrow> e) = EINTR"
    then show "?I (b1\<lparr>buf_base := store (buf_base b1) (buf_ptr b1) bs\<rparr>) EINTR tr2"
      using errno_after_read_next [OF rn, of e1] read_body_step [OF lt rn, of e1 ext]
      by simp
  next
    fix b1 e1 tr1 ret bs eo tr2
    assume I: "?I b1 e1 tr1" and lt: "buf_ptr b1 < buf_end b1"
      and rn: "read_next tr1 (buf_end b1 - buf_ptr b1) = Some (ret, bs, eo, tr2)"
      and "0 < ret"
    then show "?I (b1\<lparr>buf_base := store (buf_base b1) (buf_ptr b1) bs,
                     buf_ptr := buf_ptr b1 + nat ret\<rparr>)
                 (case eo of None \<Rightarrow> e1 | Some e \<Rightarrow> e) tr2"
      using errno_after_read_next [OF rn, of e1] read_body_step [OF lt rn, of e1 ext]
      by simp
  qed
  then show ?thesis .
qed

lemma read_header_waiting:
  assumes "buf_ptr b < 4"
  shows "sb_sasl_read_header b e (Rd_ret r x # rest)
         = (if r < 0 \<and> x = EINTR then sb_sasl_read_header b x rest
            else if r \<le> 0 then Returned r (b, x, rest)
            else sb_sasl_read_header (b\<lparr>buf_ptr := buf_ptr b + nat r\<rparr>) x rest)"
    and "sb_sasl_read_header b e (Rd_data [] # rest) = Returned 0 (b, e, rest)"
    and "sb_sasl_read_header b e [] = Blocked (b, e, [])"
  using assms
  by (simp_all add: sb_sasl_read_header.simps [of b e "Rd_ret r x # rest"]
        sb_sasl_read_header.simps [of b e "Rd_data [] # rest"]
        sb_sasl_read_header.simps [of b e "[]"] store_nil)

lemma read_body_waiting:
  assumes "buf_ptr b < buf_end b"
  shows "sb_sasl_read_body b e (Rd_ret r x # rest)
         = (if r < 0 \<and> x = EINTR then sb_sasl_read_body b x rest
            else if r \<le> 0 then Returned r (b, x, rest)
            else sb_sasl_read_body (b\<lparr>buf_ptr := buf_ptr b + nat r\<rparr>) x rest)"
    and "sb_sasl_read_body b e (Rd_data [] # rest) = Returned 0 (b, e, rest)"
    and "sb_sasl_read_body b e [] = Blocked (b, e, [])"
  using assms
  by (simp_all add: sb_sasl_read_body.simps [of b e "Rd_ret r x # rest"]
        sb_sasl_read_body.simps [of b e "Rd_data [] # rest"]
        sb_sasl_read_body.simps [of b e "[]"] store_nil)

lemma read_header_done:
  "\<not> buf_ptr b < 4 \<Longrightarrow> sb_sasl_read_header b e tr = Proceed (b, e, tr)"
  by (simp add: sb_sasl_read_header.simps [of b e tr])

lemma read_header_first:
  assumes "buf_ptr b = 0" and "4 \<le> length ds"
  shows "sb_sasl_read_header b e (Rd_data ds # tr)
         = Proceed (b\<lparr>buf_base := take 4 ds @ drop 4 (buf_base b), buf_ptr := 4\<rparr>, e,
                    if length ds \<le> 4 then tr else Rd_data (drop 4 ds) # tr)"
proof -
  have lt: "buf_ptr b < 4" using assms by simp
  have rn: "read_next (Rd_data ds # tr) (4 - buf_ptr b)
            = Some (4, take 4 ds, None, if length ds \<le> 4 then tr else Rd_data (drop 4 ds) # tr)"
    using assms by (simp add: min_def)
  have st: "store (buf_base b) 0 (take 4 ds) = take 4 ds @ drop 4 (buf_base b)"
    using assms by (simp add: store_def min_def)
  have "sb_sasl_read_header b e (Rd_data ds # tr)
        = sb_sasl_read_header (b\<lparr>buf_base := take 4 ds @ drop 4 (buf_base b), buf_ptr := 4\<rparr>) e
            (if length ds \<le> 4 then tr else Rd_data (drop 4 ds) # tr)"
    using read_header_step [OF lt rn, of e "[]"] assms(1) by (simp add: st)
  also have "\<dots> = Proceed (b\<lparr>buf_base := take 4 ds @ drop 4 (buf_base b), buf_ptr := 4\<rparr>, e,
                    if length ds \<le> 4 then tr else Rd_data (drop 4 ds) # tr)"
    by (rule read_header_done) simp
  finally show ?thesis .
qed

lemma read_body_done:
  "\<not> buf_ptr b < buf_end b \<Longrightarrow> sb_sasl_read_body b e tr = Proceed (b, e, tr)"
  by (simp add: sb_sasl_read_body.simps [of b e tr])

lemma read_body_data:
  assumes "buf_ptr b < buf_end b" and "ds \<noteq> []" and "n = buf_end b - buf_ptr b"
  shows "sb_sasl_read_body b e (Rd_data ds # tr)
         = sb_sasl_read_body
             (b\<lparr>buf_base := store (buf_base b) (buf_ptr b) (take n ds),
                buf_ptr := buf_ptr b + min n (length ds)\<rparr>) e
             (if length ds \<le> n then tr else Rd_data (drop n ds) # tr)"
proof -
  have pos: "0 < min n (length ds)"
    using assms by simp
  have rn: "read_next (Rd_data ds # tr) (buf_end b - buf_ptr b)
            = Some (int (min n (length ds)), take n ds, None,
                    if length ds \<le> n then tr else Rd_data (drop n ds) # tr)"
    using assms(3) by simp
  have c: "\<not> int (min n (length ds)) < 0" "\<not> int (min n (length ds)) \<le> 0"
    using pos by linarith+
  show ?thesis
    using read_body_step [OF assms(1) rn, of e "[]", unfolded nat_int]
    by (simp only: c if_False option.case append_Nil2 simp_thms)
qed

section \<open>What a script delivers\<close>

text \<open>
  The second loop gathers what \<open>deliver\<close> says the script delivers and stores it
  behind the bytes the buffer holds. When the staging buffer is empty and the first answer
  of the layer below holds the four header bytes, the first loop takes them from it.
\<close>

lemma store_length: "off + length bs \<le> length mem \<Longrightarrow> length (store mem off bs) = length mem"
  by (simp add: store_def)

lemma store_store:
  "off + length bs \<le> length mem
   \<Longrightarrow> store (store mem off bs) (off + length bs) cs = store mem off (bs @ cs)"
  by (simp add: store_def add.commute add.left_commute)

lemma prepend_eq:
  "prepend bs d = Delivers cs e tr \<longleftrightarrow> (\<exists>ds. d = Delivers ds e tr \<and> cs = bs @ ds)"
  "prepend bs d = Stops cs r e tr \<longleftrightarrow> (\<exists>ds. d = Stops ds r e tr \<and> cs = bs @ ds)"
  "prepend bs d = Waits cs e \<longleftrightarrow> (\<exists>ds. d = Waits ds e \<and> cs = bs @ ds)"
  by (cases d; auto)+

lemma prepend_prepend: "prepend as (prepend bs d) = prepend (as @ bs) d"
  by (cases d) simp_all

lemma deliver_0: "deliver 0 e tr = Delivers [] e tr"
  by (cases "(0 :: nat, e, tr)" rule: deliver.cases) simp_all

lemma deliver_split:
  assumes "4 \<le> length ds" and "4 \<le> n"
  shows "deliver n e (Rd_data ds # tr)
         = prepend (take 4 ds)
             (deliver (n - 4) e (if length ds \<le> 4 then tr else Rd_data (drop 4 ds) # tr))"
proof -
  have ne: "ds \<noteq> []" "n \<noteq> 0"
    using assms by auto
  consider (whole) "n \<le> length ds" | (eq) "length ds = 4" "length ds < n"
    | (part) "4 < length ds" "length ds < n"
    using assms by linarith
  then show ?thesis
  proof cases
    case whole
    show ?thesis
    proof (cases "n = 4")
      case True
      with whole ne show ?thesis by (auto simp: deliver_0)
    next
      case False
      with assms have n4: "4 < n" by simp
      with whole have l4: "4 < length ds" by simp
      have tk: "take 4 ds @ take (n - 4) (drop 4 ds) = take n ds"
        using n4 by (metis add_diff_inverse_nat less_imp_le_nat not_less take_add)
      have dr: "drop (n - 4) (drop 4 ds) = drop n ds"
        using n4 by simp
      from whole ne n4 l4 show ?thesis
        by (auto simp: tk dr)
    qed
  next
    case eq
    with ne assms show ?thesis by simp
  next
    case part
    have c: "\<not> n - 4 \<le> length (drop 4 ds)" "drop 4 ds \<noteq> []" "n - 4 \<noteq> 0"
      "n - 4 - length (drop 4 ds) = n - length ds" "\<not> length ds \<le> 4" "\<not> n \<le> length ds"
      using part by auto
    have "deliver n e (Rd_data ds # tr) = prepend ds (deliver (n - length ds) e tr)"
      using ne c by simp
    moreover have "deliver (n - 4) e (Rd_data (drop 4 ds) # tr)
                   = prepend (drop 4 ds) (deliver (n - length ds) e tr)"
      by (simp only: deliver.simps c if_False)
    ultimately show ?thesis
      using c(5) by (simp add: prepend_prepend)
  qed
qed

lemma read_body_deliver:
  assumes "buf_end b \<le> length (buf_base b)"
  shows "(\<forall>bs e' tr'. deliver (buf_end b - buf_ptr b) e tr = Delivers bs e' tr' \<longrightarrow>
            sb_sasl_read_body b e tr
              = Proceed (b\<lparr>buf_base := store (buf_base b) (buf_ptr b) bs,
                           buf_ptr := buf_ptr b + length bs\<rparr>, e', tr')
            \<and> length bs = buf_end b - buf_ptr b)
       \<and> (\<forall>bs r e' tr'. deliver (buf_end b - buf_ptr b) e tr = Stops bs r e' tr' \<longrightarrow>
            sb_sasl_read_body b e tr
              = Returned r (b\<lparr>buf_base := store (buf_base b) (buf_ptr b) bs,
                              buf_ptr := buf_ptr b + length bs\<rparr>, e', tr')
            \<and> length bs < buf_end b - buf_ptr b \<and> r \<le> 0)
       \<and> (\<forall>bs e'. deliver (buf_end b - buf_ptr b) e tr = Waits bs e' \<longrightarrow>
            sb_sasl_read_body b e tr
              = Blocked (b\<lparr>buf_base := store (buf_base b) (buf_ptr b) bs,
                           buf_ptr := buf_ptr b + length bs\<rparr>, e', [])
            \<and> length bs < buf_end b - buf_ptr b)"
  using assms
proof (induction tr arbitrary: b e)
  case Nil
  show ?case
    by (simp add: sb_sasl_read_body.simps [of b e "[]"] store_nil)
next
  case (Cons ev tr)
  let ?n = "buf_end b - buf_ptr b"
  show ?case
  proof (cases "?n = 0")
    case True
    then have "\<not> buf_ptr b < buf_end b" by simp
    then have "sb_sasl_read_body b e (ev # tr) = Proceed (b, e, ev # tr)"
      by (simp add: sb_sasl_read_body.simps [of b e "ev # tr"])
    with True show ?thesis
      by (cases ev) (simp_all add: store_nil)
  next
    case pos: False
    then have lt: "buf_ptr b < buf_end b" by simp
    show ?thesis
    proof (cases ev)
      case (Rd_ret r x)
      have unf: "sb_sasl_read_body b e (ev # tr)
         = (if r < 0 \<and> x = EINTR then sb_sasl_read_body b x tr
            else if r \<le> 0 then Returned r (b, x, tr)
            else sb_sasl_read_body (b\<lparr>buf_ptr := buf_ptr b + nat r\<rparr>) x tr)"
        using read_body_waiting(1) [OF lt] Rd_ret by simp
      consider (intr) "r < 0" "x = EINTR" | (halt) "\<not> (r < 0 \<and> x = EINTR)" "r \<le> 0" | (bad) "0 < r"
        by linarith
      then show ?thesis
      proof cases
        case intr
        with pos Rd_ret have "deliver ?n e (ev # tr) = deliver ?n x tr" by simp
        moreover from intr have "sb_sasl_read_body b e (ev # tr) = sb_sasl_read_body b x tr"
          by (simp add: unf)
        ultimately show ?thesis
          using Cons.IH [OF Cons.prems, of x] by simp
      next
        case halt
        with pos Rd_ret have "deliver ?n e (ev # tr) = Stops [] r x tr" by auto
        moreover from halt have "sb_sasl_read_body b e (ev # tr) = Returned r (b, x, tr)"
          by (simp only: unf if_not_P [OF halt(1)] if_P [OF halt(2)] if_True if_False)
        ultimately show ?thesis
          using halt lt by (simp add: store_nil)
      next
        case bad
        with pos Rd_ret have "deliver ?n e (ev # tr) = Garbled" by auto
        then show ?thesis by simp
      qed
    next
      case (Rd_data ds)
      show ?thesis
      proof (cases "ds = []")
        case True
        with pos Rd_data have "deliver ?n e (ev # tr) = Stops [] 0 e tr" by simp
        moreover have "sb_sasl_read_body b e (ev # tr) = Returned 0 (b, e, tr)"
          using read_body_waiting(2) [OF lt] Rd_data True by simp
        ultimately show ?thesis
          using lt by (simp add: store_nil)
      next
        case ne: False
        show ?thesis
        proof (cases "?n \<le> length ds")
          case True
          let ?rest = "if length ds \<le> ?n then tr else Rd_data (drop ?n ds) # tr"
          let ?b1 = "b\<lparr>buf_base := store (buf_base b) (buf_ptr b) (take ?n ds),
                       buf_ptr := buf_ptr b + ?n\<rparr>"
          from pos ne True Rd_data
          have d: "deliver ?n e (ev # tr) = Delivers (take ?n ds) e ?rest" by simp
          have "sb_sasl_read_body b e (ev # tr) = sb_sasl_read_body ?b1 e ?rest"
            using read_body_data [OF lt ne refl, of e tr] True Rd_data by (simp add: min_def)
          moreover have "sb_sasl_read_body ?b1 e ?rest = Proceed (?b1, e, ?rest)"
            by (rule read_body_done) (use lt in simp)
          ultimately show ?thesis
            using d True by (simp add: min_def)
        next
          case False
          then have short: "length ds < ?n" by simp
          let ?b1 = "b\<lparr>buf_base := store (buf_base b) (buf_ptr b) ds,
                       buf_ptr := buf_ptr b + length ds\<rparr>"
          from pos ne False Rd_data
          have d: "deliver ?n e (ev # tr) = prepend ds (deliver (?n - length ds) e tr)" by simp
          have step: "sb_sasl_read_body b e (ev # tr) = sb_sasl_read_body ?b1 e tr"
            using read_body_data [OF lt ne refl, of e tr] short Rd_data by (simp add: min_def)
          have fits: "buf_ptr b + length ds \<le> length (buf_base b)"
            using short Cons.prems by simp
          have p1: "buf_end ?b1 \<le> length (buf_base ?b1)"
            using short Cons.prems by (simp add: store_length [OF fits])
          have n1: "buf_end ?b1 - buf_ptr ?b1 = ?n - length ds"
            by simp
          have upd: "?b1\<lparr>buf_base := store (buf_base ?b1) (buf_ptr ?b1) cs,
                         buf_ptr := buf_ptr ?b1 + length cs\<rparr>
                     = b\<lparr>buf_base := store (buf_base b) (buf_ptr b) (ds @ cs),
                         buf_ptr := buf_ptr b + length (ds @ cs)\<rparr>" for cs
            by (simp add: store_store [OF fits] add.assoc)
          note IH = Cons.IH [OF p1, of e, unfolded n1 upd]
          have A: "sb_sasl_read_body b e (ev # tr)
              = Proceed (b\<lparr>buf_base := store (buf_base b) (buf_ptr b) cs,
                           buf_ptr := buf_ptr b + length cs\<rparr>, e', tr')
            \<and> length cs = ?n"
            if "deliver ?n e (ev # tr) = Delivers cs e' tr'" for cs e' tr'
          proof -
            from that d obtain bs where
              "deliver (?n - length ds) e tr = Delivers bs e' tr'" and cs: "cs = ds @ bs"
              by (auto simp: prepend_eq)
            with IH have "sb_sasl_read_body ?b1 e tr
              = Proceed (b\<lparr>buf_base := store (buf_base b) (buf_ptr b) (ds @ bs),
                           buf_ptr := buf_ptr b + length (ds @ bs)\<rparr>, e', tr')
              \<and> length bs = ?n - length ds"
              by blast
            with short show ?thesis
              by (simp add: step cs)
          qed
          have B: "sb_sasl_read_body b e (ev # tr)
              = Returned r (b\<lparr>buf_base := store (buf_base b) (buf_ptr b) cs,
                              buf_ptr := buf_ptr b + length cs\<rparr>, e', tr')
            \<and> length cs < ?n \<and> r \<le> 0"
            if "deliver ?n e (ev # tr) = Stops cs r e' tr'" for cs r e' tr'
          proof -
            from that d obtain bs where
              "deliver (?n - length ds) e tr = Stops bs r e' tr'" and cs: "cs = ds @ bs"
              by (auto simp: prepend_eq)
            with IH have "sb_sasl_read_body ?b1 e tr
              = Returned r (b\<lparr>buf_base := store (buf_base b) (buf_ptr b) (ds @ bs),
                              buf_ptr := buf_ptr b + length (ds @ bs)\<rparr>, e', tr')
              \<and> length bs < ?n - length ds \<and> r \<le> 0"
              by blast
            with short show ?thesis
              by (auto simp: step cs)
          qed
          have C: "sb_sasl_read_body b e (ev # tr)
              = Blocked (b\<lparr>buf_base := store (buf_base b) (buf_ptr b) cs,
                           buf_ptr := buf_ptr b + length cs\<rparr>, e', [])
            \<and> length cs < ?n"
            if "deliver ?n e (ev # tr) = Waits cs e'" for cs e'
          proof -
            from that d obtain bs where
              "deliver (?n - length ds) e tr = Waits bs e'" and cs: "cs = ds @ bs"
              by (auto simp: prepend_eq)
            with IH have "sb_sasl_read_body ?b1 e tr
              = Blocked (b\<lparr>buf_base := store (buf_base b) (buf_ptr b) (ds @ bs),
                           buf_ptr := buf_ptr b + length (ds @ bs)\<rparr>, e', [])
              \<and> length bs < ?n - length ds"
              by blast
            with short show ?thesis
              by (auto simp: step cs)
          qed
          from A B C show ?thesis by blast
        qed
      qed
    qed
  qed
qed

section \<open>The read operation\<close>

lemma read_packet_Proceed:
  assumes "sb_sasl_read_packet env b0 err0 tr0 = Proceed (b4, e4, tr4)"
  shows "buf_end b4 \<le> buf_ptr b4 \<and> 4 \<le> buf_end b4 \<and> buf_end b4 \<le> 65540"
proof (cases "sb_sasl_read_header b0 err0 tr0")
  case (Blocked st)
  with assms show ?thesis by (simp add: sb_sasl_read_packet_def)
next
  case (Returned r st)
  with assms show ?thesis by (simp add: sb_sasl_read_packet_def)
next
  case (Proceed st)
  obtain b e tr where st: "st = (b, e, tr)" by (cases st) auto
  let ?ret = "unat (sb_sasl_pkt_length (host_order env) (buf_base b))"
  have ret: "4 \<le> ?ret" "?ret \<le> 65540"
    by (simp_all add: sb_sasl_pkt_length_unat)
  have pk: "sb_sasl_read_packet env b0 err0 tr0 =
      (case (if buf_size b < ?ret then grow_buffer env b ?ret else Some b) of
         None \<Rightarrow> Returned (- 1) (b, ENOMEM, tr)
       | Some b2 \<Rightarrow> sb_sasl_read_body (b2\<lparr>buf_end := ?ret\<rparr>) e tr)"
    using Proceed st by (simp add: sb_sasl_read_packet_def Let_def)
  from assms obtain b2 where
    body: "sb_sasl_read_body (b2\<lparr>buf_end := ?ret\<rparr>) e tr = Proceed (b4, e4, tr4)"
    by (cases "if buf_size b < ?ret then grow_buffer env b ?ret else Some b") (simp_all add: pk)
  from read_body_Proceed [OF body] ret show ?thesis by simp
qed


lemma copy_out_more:
  assumes "buf_end bi - buf_ptr bi < len"
  shows "ber_pvt_sb_copy_out bi len
         = (buf_end bi - buf_ptr bi, buf_content bi, bi\<lparr>buf_ptr := buf_ptr bi + (buf_end bi - buf_ptr bi)\<rparr>)"
  using assms by (simp add: ber_pvt_sb_copy_out_def Let_def min_def buf_content_def)

lemma sb_sasl_read_unfold:
  fixes env :: "'c sasl_env" and s :: "'c sbiod" and len :: nat
  defines "p \<equiv> sbiod_pvt s"
  defines "p1 \<equiv> p\<lparr>buf_in := ber_pvt_sb_buf_init\<rparr>"
  defines "n \<equiv> buf_end (buf_in p) - buf_ptr (buf_in p)"
  assumes more: "n < len"
  shows "sb_sasl_read env s len =
     (case sb_sasl_read_packet env (sec_buf_in p) (sb_errno s) (sbiod_next s) of
        Blocked st \<Rightarrow> None
      | Returned r (b, e, tr) \<Rightarrow>
          Some (r, buf_content (buf_in p),
                \<lparr>sbiod_pvt = p1\<lparr>sec_buf_in := b\<rparr>, sb_errno = e, sbiod_next = tr\<rparr>)
      | Proceed (b4, e4, tr4) \<Rightarrow>
          (let (rc, plain, ctx') =
                 sasl_decode env (sasl_context p) (take (buf_end b4) (buf_base b4))
           in if rc \<noteq> SASL_OK then
                Some (- 1, buf_content (buf_in p),
                      \<lparr>sbiod_pvt = p1\<lparr>sasl_context := ctx',
                         sec_buf_in := sb_sasl_drop_packet (host_order env) b4\<rparr>,
                       sb_errno = EIO, sbiod_next = tr4\<rparr>)
              else
                (let plain_buf = \<lparr>buf_base = plain, buf_ptr = 0, buf_end = length plain,
                                  buf_size = length plain\<rparr>;
                     (k, out2, bin3) = ber_pvt_sb_copy_out plain_buf (len - n)
                 in Some (int (n + k), buf_content (buf_in p) @ out2,
                          \<lparr>sbiod_pvt = p1\<lparr>sasl_context := ctx',
                             sec_buf_in := sb_sasl_drop_packet (host_order env) b4,
                             buf_in := bin3\<rparr>,
                           sb_errno = e4, sbiod_next = tr4\<rparr>))))"
proof -
  have co: "ber_pvt_sb_copy_out (buf_in p) len
            = (n, buf_content (buf_in p), (buf_in p)\<lparr>buf_ptr := buf_ptr (buf_in p) + n\<rparr>)"
    unfolding n_def using more by (simp add: copy_out_more n_def)
  have pos: "len - n \<noteq> 0"
    using more by simp
  have p1: "sec_buf_in p1 = sec_buf_in p" "sasl_context p1 = sasl_context p"
    "buf_in p1 = ber_pvt_sb_buf_init"
    by (simp_all add: p1_def)
  have pb: "ber_pvt_sb_buf_init\<lparr>buf_base := plain, buf_end := length plain,
                buf_size := length plain\<rparr>
            = \<lparr>buf_base = plain, buf_ptr = 0, buf_end = length plain, buf_size = length plain\<rparr>"
    for plain
    by (simp add: ber_pvt_sb_buf_init_def)
  have start: "sb_sasl_read env s len =
     (case sb_sasl_read_packet env (sec_buf_in p1) (sb_errno s) (sbiod_next s) of
        Blocked st \<Rightarrow> None
      | Returned r (b, e, tr) \<Rightarrow>
          Some (r, buf_content (buf_in p),
                \<lparr>sbiod_pvt = p1\<lparr>sec_buf_in := b\<rparr>, sb_errno = e, sbiod_next = tr\<rparr>)
      | Proceed (b4, e4, tr4) \<Rightarrow>
          (let (rc, plain, ctx') =
                 sasl_decode env (sasl_context p1) (take (buf_end b4) (buf_base b4))
           in if rc \<noteq> SASL_OK then
                Some (- 1, buf_content (buf_in p),
                      \<lparr>sbiod_pvt = p1\<lparr>sasl_context := ctx',
                         sec_buf_in := sb_sasl_drop_packet (host_order env) b4\<rparr>,
                       sb_errno = EIO, sbiod_next = tr4\<rparr>)
              else
                (let b5 = sb_sasl_drop_packet (host_order env) b4;
                     bin1 = (buf_in p1)\<lparr>buf_base := plain, buf_end := length plain\<rparr>;
                     bin2 = bin1\<lparr>buf_size := buf_end bin1\<rparr>;
                     (k, out2, bin3) = ber_pvt_sb_copy_out bin2 (len - n)
                 in Some (int (n + k), buf_content (buf_in p) @ out2,
                          \<lparr>sbiod_pvt = p1\<lparr>sasl_context := ctx', sec_buf_in := b5,
                             buf_in := bin3\<rparr>,
                           sb_errno = e4, sbiod_next = tr4\<rparr>))))"
    unfolding sb_sasl_read_def p_def [symmetric] Let_def co prod.case
      ber_pvt_sb_buf_destroy_def p1_def [symmetric]
    using pos by (simp only: if_False)
  show ?thesis
  proof (cases "sb_sasl_read_packet env (sec_buf_in p) (sb_errno s) (sbiod_next s)")
    case (Blocked st)
    then show ?thesis
      by (simp add: start p1)
  next
    case (Returned r st)
    then show ?thesis
      by (cases st) (simp add: start p1)
  next
    case (Proceed st)
    obtain b4 e4 tr4 where st: "st = (b4, e4, tr4)" by (cases st) auto
    obtain rc plain c' where
      dec: "sasl_decode env (sasl_context p) (take (buf_end b4) (buf_base b4)) = (rc, plain, c')"
      by (cases "sasl_decode env (sasl_context p) (take (buf_end b4) (buf_base b4))") auto
    show ?thesis
      using Proceed st dec
      by (simp add: start p1 pb Let_def)
  qed
qed

lemma read_packet_waiting:
  assumes blk: "sb_sasl_read_packet env b0 e0 pre = Blocked (b, e, tr)"
  shows "tr = [] \<and> e = errno_after e0 pre
       \<and> (r \<le> 0 \<longrightarrow> \<not> (r < 0 \<and> x = EINTR)
            \<longrightarrow> sb_sasl_read_packet env b0 e0 (pre @ Rd_ret r x # rest) = Returned r (b, x, rest))
       \<and> sb_sasl_read_packet env b0 e0 (pre @ Rd_data [] # rest) = Returned 0 (b, e, rest)
       \<and> (r < 0 \<longrightarrow> sb_sasl_read_packet env b0 e0 (pre @ [Rd_ret r EINTR])
                        = Blocked (b, EINTR, []))"
proof (cases "sb_sasl_read_header b0 e0 pre")
  case (Blocked st)
  with blk have h: "sb_sasl_read_header b0 e0 pre = Blocked (b, e, tr)"
    by (simp add: sb_sasl_read_packet_def)
  have ap: "sb_sasl_read_header b0 e0 (pre @ ext) = sb_sasl_read_header b e ext" for ext
    using read_header_append [of b0 e0 pre ext] h by blast
  have st: "tr = []" "e = errno_after e0 pre" "buf_ptr b < 4"
    using read_header_append [of b0 e0 pre "[]"] h by blast+
  show ?thesis
    using st by (simp add: sb_sasl_read_packet_def ap read_header_waiting)
next
  case (Returned r0 st)
  with blk show ?thesis by (simp add: sb_sasl_read_packet_def)
next
  case (Proceed st)
  obtain b1 e1 tr1 where st: "st = (b1, e1, tr1)" by (cases st) auto
  let ?ret = "unat (sb_sasl_pkt_length (host_order env) (buf_base b1))"
  let ?g = "if buf_size b1 < ?ret then grow_buffer env b1 ?ret else Some b1"
  have hp: "sb_sasl_read_header b0 e0 (pre @ ext) = Proceed (b1, e1, tr1 @ ext)" for ext
    using read_header_append [of b0 e0 pre ext] Proceed st by blast
  have e1: "errno_after e1 tr1 = errno_after e0 pre"
    using read_header_append [of b0 e0 pre "[]"] Proceed st by blast
  have pk: "sb_sasl_read_packet env b0 e0 (pre @ ext) =
      (case ?g of
         None \<Rightarrow> Returned (- 1) (b1, ENOMEM, tr1 @ ext)
       | Some b2 \<Rightarrow> sb_sasl_read_body (b2\<lparr>buf_end := ?ret\<rparr>) e1 (tr1 @ ext))" for ext
    by (simp add: sb_sasl_read_packet_def hp Let_def)
  from blk pk [of "[]"] obtain b2 where
    g: "?g = Some b2" and bd: "sb_sasl_read_body (b2\<lparr>buf_end := ?ret\<rparr>) e1 tr1 = Blocked (b, e, tr)"
    by (cases ?g) simp_all
  have ap: "sb_sasl_read_body (b2\<lparr>buf_end := ?ret\<rparr>) e1 (tr1 @ ext) = sb_sasl_read_body b e ext"
    for ext
    using read_body_append [of "b2\<lparr>buf_end := ?ret\<rparr>" e1 tr1 ext] bd by blast
  have st': "tr = []" "e = errno_after e1 tr1" "buf_ptr b < buf_end b"
    using read_body_append [of "b2\<lparr>buf_end := ?ret\<rparr>" e1 tr1 "[]"] bd by blast+
  have pk': "sb_sasl_read_packet env b0 e0 (pre @ ext) = sb_sasl_read_body b e ext" for ext
    by (simp only: pk g option.case ap)
  show ?thesis
    using st' e1 by (simp add: pk' read_body_waiting)
qed

lemma sb_sasl_read_None:
  assumes "sb_sasl_read env s len = None"
  shows "buf_end (buf_in (sbiod_pvt s)) - buf_ptr (buf_in (sbiod_pvt s)) < len
       \<and> (\<exists>st. sb_sasl_read_packet env (sec_buf_in (sbiod_pvt s)) (sb_errno s) (sbiod_next s)
                  = Blocked st)"
proof -
  have more: "buf_end (buf_in (sbiod_pvt s)) - buf_ptr (buf_in (sbiod_pvt s)) < len"
  proof (rule ccontr)
    assume "\<not> buf_end (buf_in (sbiod_pvt s)) - buf_ptr (buf_in (sbiod_pvt s)) < len"
    then have "sb_sasl_read env s len \<noteq> None"
      by (simp add: sb_sasl_read_def ber_pvt_sb_copy_out_def Let_def min_def)
    with assms show False by simp
  qed
  have "\<exists>st. sb_sasl_read_packet env (sec_buf_in (sbiod_pvt s)) (sb_errno s) (sbiod_next s)
                  = Blocked st"
  proof (cases "sb_sasl_read_packet env (sec_buf_in (sbiod_pvt s)) (sb_errno s) (sbiod_next s)")
    case (Blocked st)
    then show ?thesis by blast
  next
    case (Returned r st)
    with assms show ?thesis
      by (cases st) (simp add: sb_sasl_read_unfold [OF more])
  next
    case (Proceed st)
    with assms show ?thesis
      by (cases st) (simp add: sb_sasl_read_unfold [OF more] Let_def split: prod.splits if_splits)
  qed
  with more show ?thesis by simp
qed

lemma read_packet_deliver:
  fixes env :: "'c sasl_env"
  assumes F_def: "F = (if be32 ds \<le> 65536 then be32 ds + 4 else 20)"
      and idle: "buf_ptr b = 0" and hdr: "4 \<le> length ds"
      and cap: "F \<le> buf_size b" and blk: "length (buf_base b) = buf_size b"
  shows "(\<forall>fr e' tr'. deliver (F) e (Rd_data ds # tr) = Delivers fr e' tr' \<longrightarrow>
            sb_sasl_read_packet env b e (Rd_data ds # tr)
              = Proceed (b\<lparr>buf_base := fr @ drop (F) (buf_base b), buf_ptr := F,
                           buf_end := F\<rparr>, e', tr')
            \<and> length fr = F \<and> take 4 fr = take 4 ds)
       \<and> (\<forall>part r e' tr'. deliver (F) e (Rd_data ds # tr) = Stops part r e' tr' \<longrightarrow>
            sb_sasl_read_packet env b e (Rd_data ds # tr)
              = Returned r (b\<lparr>buf_base := part @ drop (length part) (buf_base b),
                              buf_ptr := length part, buf_end := F\<rparr>, e', tr')
            \<and> length part < F \<and> r \<le> 0)
       \<and> (\<forall>part e'. deliver (F) e (Rd_data ds # tr) = Waits part e' \<longrightarrow>
            sb_sasl_read_packet env b e (Rd_data ds # tr)
              = Blocked (b\<lparr>buf_base := part @ drop (length part) (buf_base b),
                           buf_ptr := length part, buf_end := F\<rparr>, e', [])
            \<and> length part < F)"
proof -
  let ?h = "take 4 ds"
  let ?rest = "if length ds \<le> 4 then tr else Rd_data (drop 4 ds) # tr"
  let ?hb = "b\<lparr>buf_base := ?h @ drop 4 (buf_base b), buf_ptr := 4\<rparr>"
  let ?b2 = "?hb\<lparr>buf_end := F\<rparr>"
  have F4: "4 \<le> F" by (simp add: F_def)
  have lh: "length ?h = 4" using hdr by simp
  have base4: "4 \<le> length (buf_base b)" using F4 cap blk by simp
  have be: "be32 (buf_base ?hb) = be32 ds"
    using hdr by (simp add: be32_prefix be32_take)
  have ret: "unat (sb_sasl_pkt_length (host_order env) (buf_base ?hb)) = F"
    by (simp only: sb_sasl_pkt_length_unat be F_def)
  have pk: "sb_sasl_read_packet env b e (Rd_data ds # tr) = sb_sasl_read_body ?b2 e ?rest"
    unfolding sb_sasl_read_packet_def read_header_first [OF idle hdr] phase.case prod.case Let_def
      ret
    using cap by simp
  have d: "deliver (F) e (Rd_data ds # tr) = prepend ?h (deliver (F - 4) e ?rest)"
    by (rule deliver_split [OF hdr F4])
  have len2: "length (buf_base ?b2) = length (buf_base b)"
    using base4 hdr by simp
  have p2: "buf_end ?b2 \<le> length (buf_base ?b2)"
    using cap blk F4 len2 by simp
  have n2: "buf_end ?b2 - buf_ptr ?b2 = F - 4" by simp
  have upd: "?b2\<lparr>buf_base := store (buf_base ?b2) (buf_ptr ?b2) cs,
                 buf_ptr := buf_ptr ?b2 + length cs\<rparr>
             = b\<lparr>buf_base := (?h @ cs) @ drop (length (?h @ cs)) (buf_base b),
                 buf_ptr := length (?h @ cs), buf_end := F\<rparr>" for cs
    using lh by (simp add: store_def add.commute)
  note BD = read_body_deliver [OF p2, of e ?rest, unfolded n2 upd]
  have A: "sb_sasl_read_packet env b e (Rd_data ds # tr)
              = Proceed (b\<lparr>buf_base := fr @ drop (F) (buf_base b), buf_ptr := F,
                           buf_end := F\<rparr>, e', tr')
            \<and> length fr = F \<and> take 4 fr = take 4 ds"
    if "deliver (F) e (Rd_data ds # tr) = Delivers fr e' tr'" for fr e' tr'
  proof -
    from that have "prepend ?h (deliver (F - 4) e ?rest) = Delivers fr e' tr'"
      by (simp only: d)
    then obtain cs where
      dl: "deliver (F - 4) e ?rest = Delivers cs e' tr'" and fr: "fr = ?h @ cs"
      unfolding prepend_eq by blast
    with BD have "sb_sasl_read_body ?b2 e ?rest
        = Proceed (b\<lparr>buf_base := (?h @ cs) @ drop (length (?h @ cs)) (buf_base b),
                     buf_ptr := length (?h @ cs), buf_end := F\<rparr>, e', tr')
        \<and> length cs = F - 4"
      by blast
    moreover from this F4 lh have "length (?h @ cs) = F" by auto
    ultimately show ?thesis
      using lh by (simp add: pk fr)
  qed
  have B: "sb_sasl_read_packet env b e (Rd_data ds # tr)
              = Returned r (b\<lparr>buf_base := part @ drop (length part) (buf_base b),
                              buf_ptr := length part, buf_end := F\<rparr>, e', tr')
            \<and> length part < F \<and> r \<le> 0"
    if "deliver (F) e (Rd_data ds # tr) = Stops part r e' tr'" for part r e' tr'
  proof -
    from that have "prepend ?h (deliver (F - 4) e ?rest) = Stops part r e' tr'"
      by (simp only: d)
    then obtain cs where
      dl: "deliver (F - 4) e ?rest = Stops cs r e' tr'" and fr: "part = ?h @ cs"
      unfolding prepend_eq by blast
    with BD have "sb_sasl_read_body ?b2 e ?rest
        = Returned r (b\<lparr>buf_base := (?h @ cs) @ drop (length (?h @ cs)) (buf_base b),
                     buf_ptr := length (?h @ cs), buf_end := F\<rparr>, e', tr')
        \<and> length cs < F - 4 \<and> r \<le> 0"
      by blast
    moreover from this F4 lh have "length (?h @ cs) < F" by auto
    ultimately show ?thesis
      by (simp add: pk fr)
  qed
  have C: "sb_sasl_read_packet env b e (Rd_data ds # tr)
              = Blocked (b\<lparr>buf_base := part @ drop (length part) (buf_base b),
                           buf_ptr := length part, buf_end := F\<rparr>, e', [])
            \<and> length part < F"
    if "deliver (F) e (Rd_data ds # tr) = Waits part e'" for part e'
  proof -
    from that have "prepend ?h (deliver (F - 4) e ?rest) = Waits part e'"
      by (simp only: d)
    then obtain cs where
      dl: "deliver (F - 4) e ?rest = Waits cs e'" and fr: "part = ?h @ cs"
      unfolding prepend_eq by blast
    with BD have "sb_sasl_read_body ?b2 e ?rest
        = Blocked (b\<lparr>buf_base := (?h @ cs) @ drop (length (?h @ cs)) (buf_base b),
                     buf_ptr := length (?h @ cs), buf_end := F\<rparr>, e', [])
        \<and> length cs < F - 4"
      by blast
    moreover from this F4 lh have "length (?h @ cs) < F" by auto
    ultimately show ?thesis
      by (simp add: pk fr)
  qed
  from A B C show ?thesis by blast
qed

lemma drop_packet_whole:
  "sb_sasl_drop_packet bo (b\<lparr>buf_base := m, buf_ptr := k, buf_end := k\<rparr>)
   = b\<lparr>buf_base := m, buf_ptr := 0, buf_end := 0\<rparr>"
  by (simp add: sb_sasl_drop_packet_def to_slen_def to_len_def)

lemma sb_sasl_read_frame:
  fixes env :: "'c sasl_env" and s :: "'c sbiod" and len :: nat
  defines "p \<equiv> sbiod_pvt s"
  defines "p1 \<equiv> p\<lparr>buf_in := ber_pvt_sb_buf_init\<rparr>"
  defines "n \<equiv> buf_end (buf_in p) - buf_ptr (buf_in p)"
  assumes F_def: "F = (if be32 ds \<le> 65536 then be32 ds + 4 else 20)"
      and more: "n < len"
      and idle: "buf_ptr (sec_buf_in p) = 0"
      and script: "sbiod_next s = Rd_data ds # tr"
      and hdr: "4 \<le> length ds"
      and cap: "F \<le> buf_size (sec_buf_in p)"
      and blk: "length (buf_base (sec_buf_in p)) = buf_size (sec_buf_in p)"
  shows "(\<forall>fr e' tr' rc plain c'.
            deliver (F) (sb_errno s) (sbiod_next s) = Delivers fr e' tr' \<longrightarrow>
            sasl_decode env (sasl_context p) fr = (rc, plain, c') \<longrightarrow>
            sb_sasl_read env s len
            = (if rc \<noteq> SASL_OK
               then Some (- 1, buf_content (buf_in p),
                      \<lparr>sbiod_pvt = p1\<lparr>sasl_context := c',
                         sec_buf_in := (sec_buf_in p)
                           \<lparr>buf_base := fr @ drop (F) (buf_base (sec_buf_in p)),
                            buf_ptr := 0, buf_end := 0\<rparr>\<rparr>,
                       sb_errno = EIO, sbiod_next = tr'\<rparr>)
               else Some (int (n + min (length plain) (len - n)),
                      buf_content (buf_in p) @ take (len - n) plain,
                      \<lparr>sbiod_pvt = p1\<lparr>sasl_context := c',
                         sec_buf_in := (sec_buf_in p)
                           \<lparr>buf_base := fr @ drop (F) (buf_base (sec_buf_in p)),
                            buf_ptr := 0, buf_end := 0\<rparr>,
                         buf_in := \<lparr>buf_base = plain, buf_ptr = min (length plain) (len - n),
                                    buf_end = length plain, buf_size = length plain\<rparr>\<rparr>,
                       sb_errno = e', sbiod_next = tr'\<rparr>)))
       \<and> (\<forall>part r e' tr'.
            deliver (F) (sb_errno s) (sbiod_next s) = Stops part r e' tr' \<longrightarrow>
            sb_sasl_read env s len
            = Some (r, buf_content (buf_in p),
                    \<lparr>sbiod_pvt = p1\<lparr>sec_buf_in := (sec_buf_in p)
                         \<lparr>buf_base := part @ drop (length part) (buf_base (sec_buf_in p)),
                          buf_ptr := length part, buf_end := F\<rparr>\<rparr>,
                     sb_errno = e', sbiod_next = tr'\<rparr>))
       \<and> (\<forall>part e'.
            deliver (F) (sb_errno s) (sbiod_next s) = Waits part e' \<longrightarrow>
            sb_sasl_read env s len = None)"
proof -
  note unf = sb_sasl_read_unfold [of s len env, folded p_def, folded p1_def, folded n_def, OF more]
  note PD = read_packet_deliver [OF F_def idle hdr cap blk, of "sb_errno s" tr env,
      folded script]
  have A: "sb_sasl_read env s len
            = (if rc \<noteq> SASL_OK
               then Some (- 1, buf_content (buf_in p),
                      \<lparr>sbiod_pvt = p1\<lparr>sasl_context := c',
                         sec_buf_in := (sec_buf_in p)
                           \<lparr>buf_base := fr @ drop (F) (buf_base (sec_buf_in p)),
                            buf_ptr := 0, buf_end := 0\<rparr>\<rparr>,
                       sb_errno = EIO, sbiod_next = tr'\<rparr>)
               else Some (int (n + min (length plain) (len - n)),
                      buf_content (buf_in p) @ take (len - n) plain,
                      \<lparr>sbiod_pvt = p1\<lparr>sasl_context := c',
                         sec_buf_in := (sec_buf_in p)
                           \<lparr>buf_base := fr @ drop (F) (buf_base (sec_buf_in p)),
                            buf_ptr := 0, buf_end := 0\<rparr>,
                         buf_in := \<lparr>buf_base = plain, buf_ptr = min (length plain) (len - n),
                                    buf_end = length plain, buf_size = length plain\<rparr>\<rparr>,
                       sb_errno = e', sbiod_next = tr'\<rparr>))"
    if d: "deliver (F) (sb_errno s) (sbiod_next s) = Delivers fr e' tr'"
      and dec: "sasl_decode env (sasl_context p) fr = (rc, plain, c')"
    for fr e' tr' rc plain c'
  proof -
    let ?bp = "(sec_buf_in p)\<lparr>buf_base := fr @ drop (F) (buf_base (sec_buf_in p)),
                 buf_ptr := F, buf_end := F\<rparr>"
    from PD d have pk: "sb_sasl_read_packet env (sec_buf_in p) (sb_errno s) (sbiod_next s)
                        = Proceed (?bp, e', tr')"
      and lf: "length fr = F"
      by blast+
    have tk: "take (buf_end ?bp) (buf_base ?bp) = fr"
      using lf by simp
    show ?thesis
      unfolding unf pk phase.case prod.case tk dec Let_def drop_packet_whole
      by (simp add: ber_pvt_sb_copy_out_def Let_def min_def)
  qed
  have B: "sb_sasl_read env s len
            = Some (r, buf_content (buf_in p),
                    \<lparr>sbiod_pvt = p1\<lparr>sec_buf_in := (sec_buf_in p)
                         \<lparr>buf_base := part @ drop (length part) (buf_base (sec_buf_in p)),
                          buf_ptr := length part, buf_end := F\<rparr>\<rparr>,
                     sb_errno = e', sbiod_next = tr'\<rparr>)"
    if d: "deliver (F) (sb_errno s) (sbiod_next s) = Stops part r e' tr'" for part r e' tr'
  proof -
    from PD d have "sb_sasl_read_packet env (sec_buf_in p) (sb_errno s) (sbiod_next s)
        = Returned r ((sec_buf_in p)
                         \<lparr>buf_base := part @ drop (length part) (buf_base (sec_buf_in p)),
                          buf_ptr := length part, buf_end := F\<rparr>, e', tr')"
      by blast
    then show ?thesis
      by (simp add: unf)
  qed
  have C: "sb_sasl_read env s len = None"
    if d: "deliver (F) (sb_errno s) (sbiod_next s) = Waits part e'" for part e'
  proof -
    from PD d have "sb_sasl_read_packet env (sec_buf_in p) (sb_errno s) (sbiod_next s)
        = Blocked ((sec_buf_in p)
                         \<lparr>buf_base := part @ drop (length part) (buf_base (sec_buf_in p)),
                          buf_ptr := length part, buf_end := F\<rparr>, e', [])"
      by blast
    then show ?thesis
      by (simp add: unf)
  qed
  from A B C show ?thesis by blast
qed


text \<open>
  Claim C5, as stated, fails where it calls the two failures distinct. In the first
  run the layer below fails with \<open>-1\<close> and \<^verbatim>\<open>errno = EIO\<close> before a byte has arrived;
  in the second a gathered packet is refused by the decode operation. Both reads return
  \<open>-1\<close> with \<^verbatim>\<open>errno = EIO\<close>: by the number returned and by \<^verbatim>\<open>errno\<close> the caller
  cannot tell the one from the other.
\<close>

theorem sb_sasl_read_same_error_counterexample:
  "sb_sasl_read reject_env
       \<lparr>sbiod_pvt = fresh_data, sb_errno = 0, sbiod_next = [Rd_ret (- 1) EIO]\<rparr> 1
     = Some (- 1, [], \<lparr>sbiod_pvt = fresh_data, sb_errno = EIO, sbiod_next = []\<rparr>)
   \<and> sb_sasl_read reject_env
       \<lparr>sbiod_pvt = fresh_data, sb_errno = 0, sbiod_next = [Rd_data [0, 0, 0, 2, 7, 8]]\<rparr> 1
     = Some (- 1, [],
             \<lparr>sbiod_pvt = fresh_data\<lparr>sec_buf_in :=
                \<lparr>buf_base = [0, 0, 0, 2, 7, 8] @ replicate 18 0, buf_ptr = 0, buf_end = 0,
                 buf_size = 24\<rparr>\<rparr>,
              sb_errno = EIO, sbiod_next = []\<rparr>)"
proof -
  let ?s2 = "\<lparr>sbiod_pvt = fresh_data, sb_errno = 0, sbiod_next = [Rd_ret (- 1) EIO]\<rparr>"
  let ?s3 = "\<lparr>sbiod_pvt = fresh_data, sb_errno = 0,
      sbiod_next = [Rd_data [0, 0, 0, 2, 7, 8]]\<rparr>"
  let ?bp = "\<lparr>buf_base = [0, 0, 0, 2, 7, 8] @ replicate 18 (0 :: byte), buf_ptr = 6, buf_end = 6,
              buf_size = 24\<rparr>"
  have more: "buf_end (buf_in (sbiod_pvt ?s2)) - buf_ptr (buf_in (sbiod_pvt ?s2)) < 1"
    "buf_end (buf_in (sbiod_pvt ?s3)) - buf_ptr (buf_in (sbiod_pvt ?s3)) < 1"
    by (simp_all add: fresh_data_def ber_pvt_sb_buf_init_def)
  have pk2: "sb_sasl_read_packet reject_env (sec_buf_in (sbiod_pvt ?s2)) (sb_errno ?s2)
               (sbiod_next ?s2) = Returned (- 1) (sec_buf_in fresh_data, EIO, [])"
    by (simp add: sb_sasl_read_packet_def sb_sasl_read_header.simps
          fresh_data_def store_def EIO_def EINTR_def)
  have pk3: "sb_sasl_read_packet reject_env (sec_buf_in (sbiod_pvt ?s3)) (sb_errno ?s3)
               (sbiod_next ?s3) = Proceed (?bp, 0, [])"
    by (simp add: sb_sasl_read_packet_def sb_sasl_read_header.simps sb_sasl_read_body.simps
          fresh_data_def store_def sb_sasl_pkt_length_unat be32_def reject_env_def)
  have 2: "sb_sasl_read reject_env ?s2 1
     = Some (- 1, [], \<lparr>sbiod_pvt = fresh_data, sb_errno = EIO, sbiod_next = []\<rparr>)"
    unfolding sb_sasl_read_unfold [OF more(1)] pk2
    by (simp add: fresh_data_def buf_content_def ber_pvt_sb_buf_init_def)
  have 3: "sb_sasl_read reject_env ?s3 1
     = Some (- 1, [],
             \<lparr>sbiod_pvt = fresh_data\<lparr>sec_buf_in :=
                \<lparr>buf_base = [0, 0, 0, 2, 7, 8] @ replicate 18 0, buf_ptr = 0, buf_end = 0,
                 buf_size = 24\<rparr>\<rparr>,
              sb_errno = EIO, sbiod_next = []\<rparr>)"
    unfolding sb_sasl_read_unfold [OF more(2)] pk3
    by (simp add: fresh_data_def buf_content_def ber_pvt_sb_buf_init_def reject_env_def
          SASL_OK_def SASL_FAIL_def sb_sasl_drop_packet_def to_slen_def to_len_def)
  from 2 3 show ?thesis by blast
qed

text \<open>
  Claim C5, amended. Take a read that the ready buffer cannot satisfy, so that the
  adapter turns to the layer below.

  \<^item> Decode failure. If the packet is gathered in full and the decode operation of the
    security context gives a status other than \<^verbatim>\<open>SASL_OK\<close>, the read returns \<open>-1\<close>
    with \<^verbatim>\<open>errno = EIO\<close>; the staging buffer is what \<^verbatim>\<open>sb_sasl_drop_packet\<close> makes
    of the gathered packet (whose cursor stands at or past its end, the case of claim
    C3); and the layer below is left as it was when the packet was complete: nothing is
    read again and the decode operation is not applied a second time.
  \<^item> The layer below ends the read. Let \<open>pre\<close> be a script on which the read waits: the
    packet is still incomplete when \<open>pre\<close> is used up. Then the staging buffer \<open>b\<close> in
    which the read waits and \<^verbatim>\<open>errno\<close> are determined, and whatever follows \<open>pre\<close>: if
    the next call returns \<open>r \<le> 0\<close> with \<^verbatim>\<open>errno = e\<close> (and is not an interrupted call),
    the read returns \<open>r\<close> with \<^verbatim>\<open>errno = e\<close>; at the end of the stream it returns 0
    with \<^verbatim>\<open>errno\<close> as the calls of \<open>pre\<close> left it. In both cases the staging buffer is
    \<open>b\<close>, nothing is dropped, the security context is untouched and the rest of the script
    is not read. An interrupted call (a negative return with \<^verbatim>\<open>errno = EINTR\<close>) is
    tried again: the read goes on waiting.
  \<^item> Decode failure, from the script. When the staging buffer is empty and the first
    answer of the layer below holds the four header bytes, the frame of \<open>F\<close> bytes is what
    the script delivers; if the decode operation rejects these \<open>F\<close> bytes, the read
    returns \<open>-1\<close> with \<^verbatim>\<open>errno = EIO\<close>, the frame is dropped (both cursors 0) and the
    rest of the script is not read.

  So the read hands on the number and the \<^verbatim>\<open>errno\<close> of the layer below, and these differ
  from those of a decode failure, \<open>-1\<close> and \<^verbatim>\<open>EIO\<close>, unless the layer below itself
  fails with \<open>-1\<close> and \<^verbatim>\<open>EIO\<close>.
\<close>

theorem sb_sasl_read_failure_spec:
  fixes env :: "'c sasl_env" and s :: "'c sbiod" and len :: nat
  defines "p \<equiv> sbiod_pvt s"
  defines "p1 \<equiv> p\<lparr>buf_in := ber_pvt_sb_buf_init\<rparr>"
  shows
    "(buf_end (buf_in p) - buf_ptr (buf_in p) < len
        \<longrightarrow> sb_sasl_read_packet env (sec_buf_in p) (sb_errno s) (sbiod_next s) = Proceed (bp, ep, trp)
        \<longrightarrow> sasl_decode env (sasl_context p) (take (buf_end bp) (buf_base bp)) = (rc, plain, c')
        \<longrightarrow> rc \<noteq> SASL_OK
        \<longrightarrow> sb_sasl_read env s len
              = Some (- 1, buf_content (buf_in p),
                      \<lparr>sbiod_pvt = p1\<lparr>sasl_context := c',
                         sec_buf_in := sb_sasl_drop_packet (host_order env) bp\<rparr>,
                       sb_errno = EIO, sbiod_next = trp\<rparr>)
            \<and> buf_end bp \<le> buf_ptr bp)
   \<and> (sb_sasl_read env (s\<lparr>sbiod_next := pre\<rparr>) len = None
        \<longrightarrow> (\<exists>b. sb_sasl_read_packet env (sec_buf_in p) (sb_errno s) pre
                     = Blocked (b, errno_after (sb_errno s) pre, [])
                \<and> (\<forall>r e rest. r \<le> 0 \<longrightarrow> \<not> (r < 0 \<and> e = EINTR) \<longrightarrow>
                      sb_sasl_read env (s\<lparr>sbiod_next := pre @ Rd_ret r e # rest\<rparr>) len
                      = Some (r, buf_content (buf_in p),
                              \<lparr>sbiod_pvt = p1\<lparr>sec_buf_in := b\<rparr>, sb_errno = e,
                               sbiod_next = rest\<rparr>))
                \<and> (\<forall>rest.
                      sb_sasl_read env (s\<lparr>sbiod_next := pre @ Rd_data [] # rest\<rparr>) len
                      = Some (0, buf_content (buf_in p),
                              \<lparr>sbiod_pvt = p1\<lparr>sec_buf_in := b\<rparr>,
                               sb_errno = errno_after (sb_errno s) pre, sbiod_next = rest\<rparr>))
                \<and> (\<forall>r. r < 0 \<longrightarrow>
                      sb_sasl_read env (s\<lparr>sbiod_next := pre @ [Rd_ret r EINTR]\<rparr>) len = None)))
   \<and> (\<forall>ds tr F fr e2 tr2 rc2 plain2 c2.
        buf_end (buf_in p) - buf_ptr (buf_in p) < len
        \<longrightarrow> buf_ptr (sec_buf_in p) = 0 \<longrightarrow> sbiod_next s = Rd_data ds # tr \<longrightarrow> 4 \<le> length ds
        \<longrightarrow> F = (if be32 ds \<le> 65536 then be32 ds + 4 else 20)
        \<longrightarrow> F \<le> buf_size (sec_buf_in p)
        \<longrightarrow> length (buf_base (sec_buf_in p)) = buf_size (sec_buf_in p)
        \<longrightarrow> deliver F (sb_errno s) (sbiod_next s) = Delivers fr e2 tr2
        \<longrightarrow> sasl_decode env (sasl_context p) fr = (rc2, plain2, c2)
        \<longrightarrow> rc2 \<noteq> SASL_OK
        \<longrightarrow> sb_sasl_read env s len
              = Some (- 1, buf_content (buf_in p),
                      \<lparr>sbiod_pvt = p1\<lparr>sasl_context := c2,
                         sec_buf_in := (sec_buf_in p)
                           \<lparr>buf_base := fr @ drop F (buf_base (sec_buf_in p)),
                            buf_ptr := 0, buf_end := 0\<rparr>\<rparr>,
                       sb_errno = EIO, sbiod_next = tr2\<rparr>))"
proof -
  have A: "sb_sasl_read env s len
              = Some (- 1, buf_content (buf_in p),
                      \<lparr>sbiod_pvt = p1\<lparr>sasl_context := c',
                         sec_buf_in := sb_sasl_drop_packet (host_order env) bp\<rparr>,
                       sb_errno = EIO, sbiod_next = trp\<rparr>)
            \<and> buf_end bp \<le> buf_ptr bp"
    if more: "buf_end (buf_in p) - buf_ptr (buf_in p) < len"
      and pk: "sb_sasl_read_packet env (sec_buf_in p) (sb_errno s) (sbiod_next s) = Proceed (bp, ep, trp)"
      and dec: "sasl_decode env (sasl_context p) (take (buf_end bp) (buf_base bp)) = (rc, plain, c')"
      and ne: "rc \<noteq> SASL_OK"
    using pk dec ne read_packet_Proceed [OF pk]
    by (simp add: sb_sasl_read_unfold [of s len env, folded p_def, folded p1_def, OF more])
  have B: "\<exists>b. sb_sasl_read_packet env (sec_buf_in p) (sb_errno s) pre
                     = Blocked (b, errno_after (sb_errno s) pre, [])
                \<and> (\<forall>r e rest. r \<le> 0 \<longrightarrow> \<not> (r < 0 \<and> e = EINTR) \<longrightarrow>
                      sb_sasl_read env (s\<lparr>sbiod_next := pre @ Rd_ret r e # rest\<rparr>) len
                      = Some (r, buf_content (buf_in p),
                              \<lparr>sbiod_pvt = p1\<lparr>sec_buf_in := b\<rparr>, sb_errno = e,
                               sbiod_next = rest\<rparr>))
                \<and> (\<forall>rest.
                      sb_sasl_read env (s\<lparr>sbiod_next := pre @ Rd_data [] # rest\<rparr>) len
                      = Some (0, buf_content (buf_in p),
                              \<lparr>sbiod_pvt = p1\<lparr>sec_buf_in := b\<rparr>,
                               sb_errno = errno_after (sb_errno s) pre, sbiod_next = rest\<rparr>))
                \<and> (\<forall>r. r < 0 \<longrightarrow>
                      sb_sasl_read env (s\<lparr>sbiod_next := pre @ [Rd_ret r EINTR]\<rparr>) len = None)"
    if wait: "sb_sasl_read env (s\<lparr>sbiod_next := pre\<rparr>) len = None"
  proof -
    from sb_sasl_read_None [OF wait]
    have more: "buf_end (buf_in p) - buf_ptr (buf_in p) < len"
      and "\<exists>st. sb_sasl_read_packet env (sec_buf_in p) (sb_errno s) pre = Blocked st"
      by (simp_all add: p_def)
    then obtain b e tr where
      blk: "sb_sasl_read_packet env (sec_buf_in p) (sb_errno s) pre = Blocked (b, e, tr)"
      by (metis prod_cases3)
    note w = read_packet_waiting [OF blk]
    have unf: "sb_sasl_read env (s\<lparr>sbiod_next := tr'\<rparr>) len =
       (case sb_sasl_read_packet env (sec_buf_in p) (sb_errno s) tr' of
          Blocked st \<Rightarrow> None
        | Returned r (b, e, tr) \<Rightarrow>
            Some (r, buf_content (buf_in p),
                  \<lparr>sbiod_pvt = p1\<lparr>sec_buf_in := b\<rparr>, sb_errno = e, sbiod_next = tr\<rparr>)
        | Proceed (b4, e4, tr4) \<Rightarrow>
            (let (rc, plain, ctx') =
                   sasl_decode env (sasl_context p) (take (buf_end b4) (buf_base b4))
             in if rc \<noteq> SASL_OK then
                  Some (- 1, buf_content (buf_in p),
                        \<lparr>sbiod_pvt = p1\<lparr>sasl_context := ctx',
                           sec_buf_in := sb_sasl_drop_packet (host_order env) b4\<rparr>,
                         sb_errno = EIO, sbiod_next = tr4\<rparr>)
                else
                  (let plain_buf = \<lparr>buf_base = plain, buf_ptr = 0, buf_end = length plain,
                                    buf_size = length plain\<rparr>;
                       (k, out2, bin3) = ber_pvt_sb_copy_out plain_buf
                                           (len - (buf_end (buf_in p) - buf_ptr (buf_in p)))
                   in Some (int (buf_end (buf_in p) - buf_ptr (buf_in p) + k),
                            buf_content (buf_in p) @ out2,
                            \<lparr>sbiod_pvt = p1\<lparr>sasl_context := ctx',
                               sec_buf_in := sb_sasl_drop_packet (host_order env) b4,
                               buf_in := bin3\<rparr>,
                             sb_errno = e4, sbiod_next = tr4\<rparr>))))" for tr'
    proof -
      have sel: "sbiod_pvt (s\<lparr>sbiod_next := tr'\<rparr>) = p"
        "sb_errno (s\<lparr>sbiod_next := tr'\<rparr>) = sb_errno s"
        "sbiod_next (s\<lparr>sbiod_next := tr'\<rparr>) = tr'"
        by (simp_all add: p_def)
      from more have "buf_end (buf_in (sbiod_pvt (s\<lparr>sbiod_next := tr'\<rparr>)))
                      - buf_ptr (buf_in (sbiod_pvt (s\<lparr>sbiod_next := tr'\<rparr>))) < len"
        by (simp add: sel)
      from sb_sasl_read_unfold [OF this, of env] show ?thesis
        unfolding sel p1_def .
    qed
    have 0: "sb_sasl_read_packet env (sec_buf_in p) (sb_errno s) pre
             = Blocked (b, errno_after (sb_errno s) pre, [])"
      using blk w [of 0 0 "[]"] by simp
    have 1: "sb_sasl_read env (s\<lparr>sbiod_next := pre @ Rd_ret r x # rest\<rparr>) len
             = Some (r, buf_content (buf_in p),
                     \<lparr>sbiod_pvt = p1\<lparr>sec_buf_in := b\<rparr>, sb_errno = x, sbiod_next = rest\<rparr>)"
      if "r \<le> 0" "\<not> (r < 0 \<and> x = EINTR)" for r x rest
      using w [of r x rest] that by (simp add: unf)
    have 2: "sb_sasl_read env (s\<lparr>sbiod_next := pre @ Rd_data [] # rest\<rparr>) len
             = Some (0, buf_content (buf_in p),
                     \<lparr>sbiod_pvt = p1\<lparr>sec_buf_in := b\<rparr>,
                      sb_errno = errno_after (sb_errno s) pre, sbiod_next = rest\<rparr>)" for rest
      using w [of 0 0 rest] by (simp add: unf)
    have 3: "sb_sasl_read env (s\<lparr>sbiod_next := pre @ [Rd_ret r EINTR]\<rparr>) len = None"
      if "r < 0" for r
      using w [of r 0 "[]"] that by (simp add: unf)
    from 0 1 2 3 show ?thesis by blast
  qed
  have E: "sb_sasl_read env s len
              = Some (- 1, buf_content (buf_in p),
                      \<lparr>sbiod_pvt = p1\<lparr>sasl_context := c2,
                         sec_buf_in := (sec_buf_in p)
                           \<lparr>buf_base := fr @ drop F (buf_base (sec_buf_in p)),
                            buf_ptr := 0, buf_end := 0\<rparr>\<rparr>,
                       sb_errno = EIO, sbiod_next = tr2\<rparr>)"
    if more: "buf_end (buf_in p) - buf_ptr (buf_in p) < len"
      and idle: "buf_ptr (sec_buf_in p) = 0" and script: "sbiod_next s = Rd_data ds # tr"
      and hdr: "4 \<le> length ds"
      and F: "F = (if be32 ds \<le> 65536 then be32 ds + 4 else 20)"
      and cap: "F \<le> buf_size (sec_buf_in p)"
      and blk: "length (buf_base (sec_buf_in p)) = buf_size (sec_buf_in p)"
      and d: "deliver F (sb_errno s) (sbiod_next s) = Delivers fr e2 tr2"
      and dec: "sasl_decode env (sasl_context p) fr = (rc2, plain2, c2)"
      and ne: "rc2 \<noteq> SASL_OK"
    for ds tr F fr e2 tr2 rc2 plain2 c2
    using sb_sasl_read_frame [OF F, of s len tr env, folded p_def, folded p1_def,
        OF more idle script hdr cap blk, THEN conjunct1, rule_format, OF d dec] ne
    by simp
  from A B E show ?thesis by blast
qed

theorem sb_sasl_read_failure_spec_witness:
  "sb_sasl_read reject_env
     \<lparr>sbiod_pvt = fresh_data, sb_errno = 0, sbiod_next = [Rd_data [0, 0, 0, 2, 7, 8]]\<rparr> 1
   = Some (- 1, [],
           \<lparr>sbiod_pvt = fresh_data\<lparr>sec_buf_in :=
              \<lparr>buf_base = [0, 0, 0, 2, 7, 8] @ replicate 18 0, buf_ptr = 0, buf_end = 0,
               buf_size = 24\<rparr>\<rparr>,
            sb_errno = EIO, sbiod_next = []\<rparr>)
   \<and> sb_sasl_read reject_env
       \<lparr>sbiod_pvt = fresh_data, sb_errno = 0, sbiod_next = [Rd_data [0, 0, 0, 2]]\<rparr> 1 = None
   \<and> sb_sasl_read reject_env
       \<lparr>sbiod_pvt = fresh_data, sb_errno = 0,
        sbiod_next = [Rd_data [0, 0, 0, 2], Rd_ret (- 1) 11, Rd_data [7, 8]]\<rparr> 1
     = Some (- 1, [],
             \<lparr>sbiod_pvt = fresh_data\<lparr>sec_buf_in :=
                \<lparr>buf_base = [0, 0, 0, 2] @ replicate 20 0, buf_ptr = 4, buf_end = 6,
                 buf_size = 24\<rparr>\<rparr>,
              sb_errno = 11, sbiod_next = [Rd_data [7, 8]]\<rparr>)
   \<and> sb_sasl_read reject_env
       \<lparr>sbiod_pvt = fresh_data, sb_errno = 0,
        sbiod_next = [Rd_data [0, 0, 0, 2], Rd_data []]\<rparr> 1
     = Some (0, [],
             \<lparr>sbiod_pvt = fresh_data\<lparr>sec_buf_in :=
                \<lparr>buf_base = [0, 0, 0, 2] @ replicate 20 0, buf_ptr = 4, buf_end = 6,
                 buf_size = 24\<rparr>\<rparr>,
              sb_errno = 0, sbiod_next = []\<rparr>)
   \<and> sb_sasl_read reject_env
       \<lparr>sbiod_pvt = fresh_data, sb_errno = 0,
        sbiod_next = [Rd_data [0, 0, 0, 2], Rd_ret (- 1) EINTR]\<rparr> 1 = None"
proof -
  let ?s = "\<lparr>sbiod_pvt = fresh_data, sb_errno = 0,
             sbiod_next = [Rd_data [0, 0, 0, 2, 7, 8]]\<rparr>"
  let ?pre = "[Rd_data [0, 0, 0, 2]]"
  let ?bp = "\<lparr>buf_base = [0, 0, 0, 2, 7, 8] @ replicate 18 (0 :: byte), buf_ptr = 6, buf_end = 6,
              buf_size = 24\<rparr>"
  let ?b = "\<lparr>buf_base = [0, 0, 0, 2] @ replicate 20 (0 :: byte), buf_ptr = 4, buf_end = 6,
             buf_size = 24\<rparr>"
  have more: "buf_end (buf_in (sbiod_pvt ?s)) - buf_ptr (buf_in (sbiod_pvt ?s)) < 1"
    by (simp add: fresh_data_def ber_pvt_sb_buf_init_def)
  have pk1: "sb_sasl_read_packet reject_env (sec_buf_in (sbiod_pvt ?s)) (sb_errno ?s)
               (sbiod_next ?s) = Proceed (?bp, 0, [])"
    by (simp add: sb_sasl_read_packet_def sb_sasl_read_header.simps sb_sasl_read_body.simps
          fresh_data_def store_def sb_sasl_pkt_length_unat be32_def reject_env_def)
  have dec: "sasl_decode reject_env (sasl_context (sbiod_pvt ?s))
               (take (buf_end ?bp) (buf_base ?bp)) = (SASL_FAIL, [], 0)"
    by (simp add: reject_env_def fresh_data_def)
  have ne: "SASL_FAIL \<noteq> SASL_OK"
    by (simp add: SASL_FAIL_def SASL_OK_def)
  have pk0: "sb_sasl_read_packet reject_env (sec_buf_in (sbiod_pvt ?s)) (sb_errno ?s) ?pre
             = Blocked (?b, 0, [])"
    by (simp add: sb_sasl_read_packet_def sb_sasl_read_header.simps sb_sasl_read_body.simps
          fresh_data_def store_def sb_sasl_pkt_length_unat be32_def reject_env_def)
  have wait: "sb_sasl_read reject_env (?s\<lparr>sbiod_next := ?pre\<rparr>) 1 = None"
    using sb_sasl_read_unfold [of "?s\<lparr>sbiod_next := ?pre\<rparr>" 1 reject_env] more pk0
    by simp
  note spec = sb_sasl_read_failure_spec [where env = reject_env and s = ?s and len = 1
      and bp = ?bp and ep = 0 and trp = "[]" and rc = SASL_FAIL and plain = "[]" and c' = 0
      and pre = ?pre]
  from spec more pk1 dec ne
  have 1: "sb_sasl_read reject_env ?s 1
           = Some (- 1, buf_content (buf_in (sbiod_pvt ?s)),
                   \<lparr>sbiod_pvt = (sbiod_pvt ?s)\<lparr>buf_in := ber_pvt_sb_buf_init,
                       sasl_context := 0,
                       sec_buf_in := sb_sasl_drop_packet (host_order reject_env) ?bp\<rparr>,
                    sb_errno = EIO, sbiod_next = []\<rparr>)"
    by blast
  from spec wait obtain b where
    b: "sb_sasl_read_packet reject_env (sec_buf_in (sbiod_pvt ?s)) (sb_errno ?s) ?pre
        = Blocked (b, errno_after (sb_errno ?s) ?pre, [])"
    and ret: "\<And>r e rest. r \<le> 0 \<Longrightarrow> \<not> (r < 0 \<and> e = EINTR) \<Longrightarrow>
                sb_sasl_read reject_env (?s\<lparr>sbiod_next := ?pre @ Rd_ret r e # rest\<rparr>) 1
                = Some (r, buf_content (buf_in (sbiod_pvt ?s)),
                        \<lparr>sbiod_pvt = (sbiod_pvt ?s)\<lparr>buf_in := ber_pvt_sb_buf_init,
                            sec_buf_in := b\<rparr>, sb_errno = e, sbiod_next = rest\<rparr>)"
    and eof: "\<And>rest.
                sb_sasl_read reject_env (?s\<lparr>sbiod_next := ?pre @ Rd_data [] # rest\<rparr>) 1
                = Some (0, buf_content (buf_in (sbiod_pvt ?s)),
                        \<lparr>sbiod_pvt = (sbiod_pvt ?s)\<lparr>buf_in := ber_pvt_sb_buf_init,
                            sec_buf_in := b\<rparr>,
                         sb_errno = errno_after (sb_errno ?s) ?pre, sbiod_next = rest\<rparr>)"
    and intr: "\<And>r. r < 0 \<Longrightarrow>
                sb_sasl_read reject_env (?s\<lparr>sbiod_next := ?pre @ [Rd_ret r EINTR]\<rparr>) 1 = None"
    by blast
  from b pk0 have bb: "b = ?b" by simp
  have drp: "sb_sasl_drop_packet (host_order reject_env) ?bp = ?bp\<lparr>buf_ptr := 0, buf_end := 0\<rparr>"
    by (simp add: sb_sasl_drop_packet_def to_slen_def to_len_def)
  have "\<not> ((- 1 :: int) < 0 \<and> (11 :: int) = EINTR)"
    by (simp add: EINTR_def)
  from ret [OF _ this, of "[Rd_data [7, 8]]"] eof [of "[]"] intr [of "- 1"] 1 wait
  show ?thesis
    unfolding bb drp
    by (simp add: fresh_data_def buf_content_def ber_pvt_sb_buf_init_def)
qed

section \<open>A declared length above the ceiling\<close>









section \<open>The write operation\<close>





section \<open>Installing the adapter twice\<close>

text \<open>
  Claim C10. Whatever the two liblber functions do, \<^verbatim>\<open>ldap_pvt_sasl_install\<close>
  returns \<^verbatim>\<open>LDAP_SUCCESS\<close>; and if the stream already has the layer of
  \<^verbatim>\<open>ldap_pvt_sockbuf_io_sasl\<close>, the stream is left exactly as it was: no layer is
  added, and the layer present keeps the argument it was set up with. Hence, for every
  stream on which the layer is present once it has been added, a second install after a
  first changes nothing.
\<close>

theorem ldap_pvt_sasl_install_idempotent:
  "fst (ldap_pvt_sasl_install has_io add_io sb ctx_arg) = LDAP_SUCCESS
   \<and> (has_io sb ldap_pvt_sockbuf_io_sasl
        \<longrightarrow> ldap_pvt_sasl_install has_io add_io sb ctx_arg = (LDAP_SUCCESS, sb))
   \<and> (has_io (snd (ldap_pvt_sasl_install has_io add_io sb ctx_arg)) ldap_pvt_sockbuf_io_sasl
        \<longrightarrow> ldap_pvt_sasl_install has_io add_io
              (snd (ldap_pvt_sasl_install has_io add_io sb ctx_arg)) ctx_arg'
            = ldap_pvt_sasl_install has_io add_io sb ctx_arg)"
  by (simp add: ldap_pvt_sasl_install_def Let_def)

theorem ldap_pvt_sasl_install_idempotent_witness:
  "ldap_pvt_sasl_install ber_sockbuf_has_io ber_sockbuf_add_io
     [(20, other_sockbuf_io 0, 0 :: nat)] 7
   = (LDAP_SUCCESS, [(30, ldap_pvt_sockbuf_io_sasl, 7), (20, other_sockbuf_io 0, 0)])
   \<and> ldap_pvt_sasl_install ber_sockbuf_has_io ber_sockbuf_add_io
       [(30, ldap_pvt_sockbuf_io_sasl, 7), (20, other_sockbuf_io 0, 0 :: nat)] 8
     = (LDAP_SUCCESS, [(30, ldap_pvt_sockbuf_io_sasl, 7), (20, other_sockbuf_io 0, 0)])"
proof -
  let ?sb = "[(30, ldap_pvt_sockbuf_io_sasl, 7), (20, other_sockbuf_io 0, 0 :: nat)]"
  have 1: "ldap_pvt_sasl_install ber_sockbuf_has_io ber_sockbuf_add_io
     [(20, other_sockbuf_io 0, 0 :: nat)] 7 = (LDAP_SUCCESS, ?sb)"
    by (simp add: ldap_pvt_sasl_install_def ber_sockbuf_has_io_def ber_sockbuf_add_io_def
          LBER_SBIOD_LEVEL_APPLICATION_def)
  have present: "ber_sockbuf_has_io ?sb ldap_pvt_sockbuf_io_sasl"
    by (simp add: ber_sockbuf_has_io_def)
  from ldap_pvt_sasl_install_idempotent [of ber_sockbuf_has_io ber_sockbuf_add_io ?sb 8] present
  have "ldap_pvt_sasl_install ber_sockbuf_has_io ber_sockbuf_add_io ?sb 8 = (LDAP_SUCCESS, ?sb)"
    by blast
  with 1 show ?thesis by simp
qed

section \<open>A protocol version below 3\<close>

text \<open>
  Claim C7. On a connection whose protocol version is below 3,
  \<^verbatim>\<open>ldap_pvt_sasl_bind\<close> returns \<^verbatim>\<open>LDAP_NOT_SUPPORTED\<close> at once: it stores that code
  in \<^verbatim>\<open>ld_errno\<close>, changes nothing else (the pointer \<^verbatim>\<open>ld_sasl_context\<close> is what it
  was) and calls nothing, so no security context is created. Likewise
  \<^verbatim>\<open>ldap_sasl_bind\<close>, given a SASL mechanism (one other than \<^verbatim>\<open>LDAP_SASL_SIMPLE\<close>),
  returns \<^verbatim>\<open>LDAP_NOT_SUPPORTED\<close> and sends no request.
\<close>

theorem sasl_bind_below_v3:
  assumes "ld_version ld < LDAP_VERSION3"
  shows "ldap_pvt_sasl_bind env ld bdn mechs
           = Some (LDAP_NOT_SUPPORTED, ld\<lparr>ld_errno := LDAP_NOT_SUPPORTED\<rparr>, [])
       \<and> ldap_sasl_bind senv ld dn (Some mech) cred True
           = (LDAP_NOT_SUPPORTED, ld\<lparr>ld_errno := LDAP_NOT_SUPPORTED\<rparr>, None, None)"
  using assms by (simp add: ldap_pvt_sasl_bind_def ldap_sasl_bind_def)


theorem sasl_bind_below_v3_witness:
  "ldap_pvt_sasl_bind three_round_env (sample_ld\<lparr>ld_version := 2\<rparr>) None ''DIGEST-MD5''
     = Some (LDAP_NOT_SUPPORTED, sample_ld\<lparr>ld_version := 2, ld_errno := LDAP_NOT_SUPPORTED\<rparr>, [])
   \<and> ldap_sasl_bind sample_send_env (sample_ld\<lparr>ld_version := 2\<rparr>) None (Some ''DIGEST-MD5'')
       None True
     = (LDAP_NOT_SUPPORTED, sample_ld\<lparr>ld_version := 2, ld_errno := LDAP_NOT_SUPPORTED\<rparr>,
        None, None)
   \<and> ld_sasl_context (sample_ld\<lparr>ld_version := 2, ld_errno := LDAP_NOT_SUPPORTED\<rparr>) = None"
proof -
  have "ld_version (sample_ld\<lparr>ld_version := 2\<rparr>) < LDAP_VERSION3"
    by (simp add: LDAP_VERSION3_def)
  from sasl_bind_below_v3 [OF this, where env = three_round_env and bdn = None
      and mechs = "''DIGEST-MD5''" and senv = sample_send_env and dn = None
      and mech = "''DIGEST-MD5''" and cred = None]
  show ?thesis by (simp add: sample_ld_def)
qed

section \<open>A negotiation of three rounds\<close>












lemma ldap_pvt_sasl_bind_three_rounds_run:
  "ldap_pvt_sasl_bind three_round_env sample_ld None ''DIGEST-MD5''
     = Some (LDAP_SUCCESS,
             sample_ld\<lparr>ld_errno := LDAP_SUCCESS, ld_error := Some [], ld_matched := Some [],
                ld_msgid := 3, ld_sasl_context := Some 1,
                ld_sb := [(30, ldap_pvt_sockbuf_io_sasl, Some 1), (20, other_sockbuf_io 0, None)]\<rparr>,
             [Sasl_client_new ''ldap.example.com'', Sasl_setprop ''SASL_IP_REMOTE'',
              Sasl_setprop ''SASL_IP_LOCAL'', Sasl_setprop ''SASL_SEC_PROPS'',
              Sasl_client_start ''DIGEST-MD5'',
              Ldap_sasl_bind_s
                (Some (Bind_request 1 3 [] (Auth_sasl ''DIGEST-MD5'' (Some (Some [1]))))),
              Ldap_free [1],
              Sasl_client_step (Some [10]), Ber_bvfree (Some [10]),
              Ldap_sasl_bind_s
                (Some (Bind_request 2 3 [] (Auth_sasl ''DIGEST-MD5'' (Some (Some [2]))))),
              Ldap_free [2],
              Sasl_client_step (Some [11]), Ber_bvfree (Some [11]),
              Ldap_sasl_bind_s
                (Some (Bind_request 3 3 [] (Auth_sasl ''DIGEST-MD5'' (Some (Some [3]))))),
              Sasl_getprop_ssf, Sasl_install])"
  by (simp add: ldap_pvt_sasl_bind_def sasl_bind_negotiate_def sasl_bind_loop.simps
        ldap_sasl_bind_s_def ldap_sasl_bind_def ldap_parse_sasl_bind_result_def
        three_round_env_def sample_ld_def bind_response_def
        Let_def LDAP_VERSION3_def LDAP_VERSION2_def SASL_OK_def SASL_CONTINUE_def LDAP_SUCCESS_def
        LDAP_SASL_BIND_IN_PROGRESS_def LDAP_RES_BIND_def ldap_pvt_sasl_install_def
        ber_sockbuf_has_io_def ber_sockbuf_add_io_def LBER_SBIOD_LEVEL_APPLICATION_def)

section \<open>The credential callbacks at work\<close>

text \<open>
  What claim C9 says holds wherever the passphrase is present: a request for the user
  or the authentication name gives the string supplied and its length (a null string
  and 0 when none was supplied), a request for the language gives a null string and 0,
  a request for the secret gives a secret of the length of the passphrase holding its
  bytes, or \<^verbatim>\<open>SASL_BADPARAM\<close> for a null connection or output pointer, or
  \<^verbatim>\<open>SASL_NOMEM\<close> when the allocation fails; every other field kind is refused with
  \<^verbatim>\<open>SASL_BADPARAM\<close>.
\<close>

lemma credential_callbacks_with_passphrase:
  "(ident = SASL_CB_USER \<or> ident = SASL_CB_AUTHNAME
      \<longrightarrow> ldap_pvt_sasl_getsimple (Some v) ident True True = (SASL_OK, Some (Some v), Some (length v))
          \<and> ldap_pvt_sasl_getsimple None ident True True = (SASL_OK, Some None, Some 0))
   \<and> ldap_pvt_sasl_getsimple ctx SASL_CB_LANGUAGE True True = (SASL_OK, Some None, Some 0)
   \<and> (ident \<notin> {SASL_CB_USER, SASL_CB_AUTHNAME, SASL_CB_LANGUAGE}
      \<longrightarrow> ldap_pvt_sasl_getsimple ctx ident result_ok len_ok = (SASL_BADPARAM, None, None))
   \<and> ldap_pvt_sasl_getsimple ctx ident False len_ok = (SASL_BADPARAM, None, None)
   \<and> ldap_pvt_sasl_getsecret True (Some bv) SASL_CB_PASS True True
       = Returns (SASL_OK, Some \<lparr>secret_len = length bv, secret_data = bv\<rparr>)
   \<and> ldap_pvt_sasl_getsecret True pass SASL_CB_PASS True False = Returns (SASL_NOMEM, None)
   \<and> (\<not> conn_ok \<or> \<not> psecret_ok \<or> ident \<noteq> SASL_CB_PASS
      \<longrightarrow> ldap_pvt_sasl_getsecret conn_ok pass ident psecret_ok malloc_ok
          = Returns (SASL_BADPARAM, None))"
  by (auto simp: ldap_pvt_sasl_getsimple_def ldap_pvt_sasl_getsecret_def SASL_CB_USER_def
      SASL_CB_AUTHNAME_def SASL_CB_LANGUAGE_def)

text \<open>
  Claim C9 fails on the code for a secret request without a passphrase. With a
  connection, an output pointer and a successful allocation, \<^verbatim>\<open>context == NULL\<close>
  makes \<^verbatim>\<open>ldap_pvt_sasl_getsecret\<close> compute the length 0, allocate, and then read
  \<^verbatim>\<open>passphrase->bv_len\<close> through the null pointer, where the claim has a response of
  the length of the passphrase (or a parameter error).
\<close>

theorem ldap_pvt_sasl_getsecret_null_passphrase:
  "ldap_pvt_sasl_getsecret True None SASL_CB_PASS True True = Null_dereference"
  by (simp add: ldap_pvt_sasl_getsecret_def)

theorem ldap_pvt_sasl_getsecret_null_passphrase_witness:
  "ldap_pvt_sasl_getsecret True None SASL_CB_PASS True True
     \<noteq> Returns (SASL_OK, Some \<lparr>secret_len = 0, secret_data = []\<rparr>)
   \<and> ldap_pvt_sasl_getsecret True None SASL_CB_PASS True True \<noteq> Returns (SASL_BADPARAM, None)"
  using ldap_pvt_sasl_getsecret_null_passphrase by simp

section \<open>The status mapping\<close>

lemma sasl_err2ldap_range:
  "sasl_err2ldap c \<in> {LDAP_MORE_RESULTS_TO_RETURN, LDAP_SUCCESS, LDAP_LOCAL_ERROR,
                       LDAP_NO_MEMORY, LDAP_AUTH_UNKNOWN, LDAP_PARAM_ERROR}"
  by (simp add: sasl_err2ldap_def)

text \<open>
  Claim C8, as stated, fails for the generic failure code: \<^verbatim>\<open>SASL_FAIL\<close> has a
  \<^verbatim>\<open>case\<close> of its own, which gives \<^verbatim>\<open>LDAP_LOCAL_ERROR\<close>, a code other than the
  \<^verbatim>\<open>LDAP_AUTH_UNKNOWN\<close> that too-weak, bad-authentication and unknown-mechanism
  map to.
\<close>

theorem sasl_err2ldap_generic_failure_counterexample:
  "sasl_err2ldap SASL_FAIL = LDAP_LOCAL_ERROR
   \<and> sasl_err2ldap SASL_BADAUTH = LDAP_AUTH_UNKNOWN
   \<and> sasl_err2ldap SASL_FAIL \<noteq> sasl_err2ldap SASL_BADAUTH"
  by (simp add: sasl_err2ldap_def SASL_FAIL_def SASL_BADAUTH_def SASL_CONTINUE_def SASL_OK_def
      SASL_NOMEM_def SASL_NOMECH_def LDAP_LOCAL_ERROR_def LDAP_AUTH_UNKNOWN_def)

text \<open>
  Claim C8, amended. The mapping sends continue to \<^verbatim>\<open>LDAP_MORE_RESULTS_TO_RETURN\<close>
  (more data needed), success to \<^verbatim>\<open>LDAP_SUCCESS\<close>, allocation failure to
  \<^verbatim>\<open>LDAP_NO_MEMORY\<close>, unsupported authorization identity to \<^verbatim>\<open>LDAP_PARAM_ERROR\<close>;
  too-weak, encryption-needed, bad-authentication and unknown-mechanism to
  \<^verbatim>\<open>LDAP_AUTH_UNKNOWN\<close>; and generic failure, like every status code without a
  case of its own, to \<^verbatim>\<open>LDAP_LOCAL_ERROR\<close>. For every status code the result is one
  of these six codes, never the status code passed through, and the assertion before
  the return holds: the result is success or lies in the range of API errors.
\<close>

theorem sasl_err2ldap_spec:
  "sasl_err2ldap SASL_CONTINUE = LDAP_MORE_RESULTS_TO_RETURN
   \<and> sasl_err2ldap SASL_OK = LDAP_SUCCESS
   \<and> sasl_err2ldap SASL_NOMEM = LDAP_NO_MEMORY
   \<and> sasl_err2ldap SASL_NOAUTHZ = LDAP_PARAM_ERROR
   \<and> sasl_err2ldap SASL_TOOWEAK = LDAP_AUTH_UNKNOWN
   \<and> sasl_err2ldap SASL_ENCRYPT = LDAP_AUTH_UNKNOWN
   \<and> sasl_err2ldap SASL_BADAUTH = LDAP_AUTH_UNKNOWN
   \<and> sasl_err2ldap SASL_NOMECH = LDAP_AUTH_UNKNOWN
   \<and> sasl_err2ldap SASL_FAIL = LDAP_LOCAL_ERROR
   \<and> (c \<notin> {SASL_CONTINUE, SASL_OK, SASL_FAIL, SASL_NOMEM, SASL_NOMECH, SASL_BADAUTH,
             SASL_NOAUTHZ, SASL_TOOWEAK, SASL_ENCRYPT}
        \<longrightarrow> sasl_err2ldap c = LDAP_LOCAL_ERROR)
   \<and> sasl_err2ldap c \<in> {LDAP_MORE_RESULTS_TO_RETURN, LDAP_SUCCESS, LDAP_LOCAL_ERROR,
                          LDAP_NO_MEMORY, LDAP_AUTH_UNKNOWN, LDAP_PARAM_ERROR}
   \<and> sasl_err2ldap_asserted c"
proof -
  have codes: "sasl_err2ldap SASL_CONTINUE = LDAP_MORE_RESULTS_TO_RETURN"
    "sasl_err2ldap SASL_OK = LDAP_SUCCESS"
    "sasl_err2ldap SASL_NOMEM = LDAP_NO_MEMORY"
    "sasl_err2ldap SASL_NOAUTHZ = LDAP_PARAM_ERROR"
    "sasl_err2ldap SASL_TOOWEAK = LDAP_AUTH_UNKNOWN"
    "sasl_err2ldap SASL_ENCRYPT = LDAP_AUTH_UNKNOWN"
    "sasl_err2ldap SASL_BADAUTH = LDAP_AUTH_UNKNOWN"
    "sasl_err2ldap SASL_NOMECH = LDAP_AUTH_UNKNOWN"
    "sasl_err2ldap SASL_FAIL = LDAP_LOCAL_ERROR"
    by (simp_all add: sasl_err2ldap_def SASL_CONTINUE_def SASL_OK_def SASL_FAIL_def
        SASL_NOMEM_def SASL_NOMECH_def SASL_BADAUTH_def SASL_NOAUTHZ_def SASL_TOOWEAK_def
        SASL_ENCRYPT_def)
  have other: "c \<notin> {SASL_CONTINUE, SASL_OK, SASL_FAIL, SASL_NOMEM, SASL_NOMECH, SASL_BADAUTH,
                     SASL_NOAUTHZ, SASL_TOOWEAK, SASL_ENCRYPT}
               \<longrightarrow> sasl_err2ldap c = LDAP_LOCAL_ERROR"
    by (simp add: sasl_err2ldap_def)
  have asserted: "sasl_err2ldap_asserted c"
    using sasl_err2ldap_range [of c]
    by (auto simp: sasl_err2ldap_asserted_def LDAP_API_ERROR_def LDAP_SUCCESS_def
        LDAP_MORE_RESULTS_TO_RETURN_def LDAP_LOCAL_ERROR_def LDAP_NO_MEMORY_def
        LDAP_AUTH_UNKNOWN_def LDAP_PARAM_ERROR_def)
  show ?thesis
    using codes other asserted sasl_err2ldap_range [of c] by simp
qed

theorem sasl_err2ldap_spec_witness:
  "(- 9) \<notin> {SASL_CONTINUE, SASL_OK, SASL_FAIL, SASL_NOMEM, SASL_NOMECH, SASL_BADAUTH,
            SASL_NOAUTHZ, SASL_TOOWEAK, SASL_ENCRYPT}
   \<and> sasl_err2ldap (- 9) = LDAP_LOCAL_ERROR
   \<and> sasl_err2ldap (- 9) = 82
   \<and> sasl_err2ldap_asserted (- 9)"
proof -
  have notin: "(- 9) \<notin> {SASL_CONTINUE, SASL_OK, SASL_FAIL, SASL_NOMEM, SASL_NOMECH,
                       SASL_BADAUTH, SASL_NOAUTHZ, SASL_TOOWEAK, SASL_ENCRYPT}"
    by (simp add: SASL_CONTINUE_def SASL_OK_def SASL_FAIL_def SASL_NOMEM_def SASL_NOMECH_def
        SASL_BADAUTH_def SASL_NOAUTHZ_def SASL_TOOWEAK_def SASL_ENCRYPT_def)
  with sasl_err2ldap_spec [of "- 9"] show ?thesis
    by (simp add: LDAP_LOCAL_ERROR_def)
qed

end
